theory Spec2Isabelle
  imports Complex_Main
begin

section \<open>Values\<close>

text \<open>
  The program works on untyped JavaScript values. A number is a double: not-a-number, an
  infinity, or a finite double, which is represented by the rational it denotes (the two
  zeros are not distinguished). The program does no arithmetic on numbers; it only hands
  them to the conversions \<open>Number\<close>, \<open>String\<close>, \<open>Boolean\<close> and to the JSON codec.
\<close>

datatype jsnum = NaN | PosInf | NegInf | Fin rat

text \<open>
  A value is \<open>undefined\<close>, \<open>null\<close>, a boolean, a number, a string, an array or a plain
  object. An object is the list of its own properties in insertion order. An array is the
  list of its elements (a hole reads as \<open>undefined\<close> and is represented by it) together
  with the named properties that an assignment \<open>arr[k] = v\<close> with a key that is no array
  index leaves on the array object. Inherited properties (those of \<open>Object.prototype\<close>)
  and the engine's rule that lists integer-like keys of an object first are not
  represented in these values; path addressing, where the prototype decides what an
  assignment does, has values of its own. Strings are lists of 8-bit characters.
\<close>

datatype jsval =
    JUndefined
  | JNull
  | JBool bool
  | JNum jsnum
  | JStr string
  | JArr "jsval list" "(string \<times> jsval) list"
  | JObj "(string \<times> jsval) list"

type_synonym props = "(string \<times> jsval) list"

subsection \<open>Own properties of an object\<close>

text \<open>\<open>key in obj\<close>\<close>

definition has_key :: "props \<Rightarrow> string \<Rightarrow> bool" where
  "has_key ps k = (k \<in> set (map fst ps))"

text \<open>\<open>obj[key]\<close>, which is \<open>undefined\<close> for a missing key\<close>

fun obj_get :: "props \<Rightarrow> string \<Rightarrow> jsval" where
  "obj_get [] k = JUndefined"
| "obj_get ((k', v) # ps) k = (if k' = k then v else obj_get ps k)"

text \<open>\<open>obj[key] = v\<close>: an existing key keeps its position, a new key goes last\<close>

fun obj_set :: "props \<Rightarrow> string \<Rightarrow> jsval \<Rightarrow> props" where
  "obj_set [] k v = [(k, v)]"
| "obj_set ((k', v') # ps) k v = (if k' = k then (k, v) # ps else (k', v') # obj_set ps k v)"

text \<open>\<open>delete obj[key]\<close>\<close>

definition obj_delete :: "props \<Rightarrow> string \<Rightarrow> props" where
  "obj_delete ps k = filter (\<lambda>kv. fst kv \<noteq> k) ps"

text \<open>\<open>Object.assign(target, source)\<close>\<close>

definition obj_assign :: "props \<Rightarrow> props \<Rightarrow> props" where
  "obj_assign target source = foldl (\<lambda>acc kv. obj_set acc (fst kv) (snd kv)) target source"

subsection \<open>Characters and strings\<close>

abbreviation bslash :: char where "bslash \<equiv> CHR 0x5C"
abbreviation dquote :: char where "dquote \<equiv> CHR 0x22"
abbreviation squote :: char where "squote \<equiv> CHR 0x27"
abbreviation newline :: char where "newline \<equiv> CHR 0x0A"
abbreviation creturn :: char where "creturn \<equiv> CHR 0x0D"
abbreviation tabchar :: char where "tabchar \<equiv> CHR 0x09"

text \<open>\<open>str.replace(/c/g, r)\<close> for a single character \<open>c\<close>\<close>

definition replaceAll :: "char \<Rightarrow> string \<Rightarrow> string \<Rightarrow> string" where
  "replaceAll c r str = concat (map (\<lambda>x. if x = c then r else [x]) str)"

section \<open>Escaping and unescaping (worker)\<close>

definition escapeStringValue :: "string \<Rightarrow> string" where
  "escapeStringValue str =
     replaceAll tabchar [bslash, CHR ''t'']
       (replaceAll creturn [bslash, CHR ''r'']
         (replaceAll newline [bslash, CHR ''n'']
           (replaceAll dquote [bslash, dquote]
             (replaceAll bslash [bslash, bslash] str))))"

text \<open>
  The \<open>while (i < str.length)\<close> loop of \<open>unescapeStringValue\<close>, with its index \<open>i\<close> and
  the string built so far.
\<close>

function unescape_loop :: "string \<Rightarrow> nat \<Rightarrow> string \<Rightarrow> string" where
  "unescape_loop str i result =
     (if i < length str then
        (if str ! i = bslash \<and> i + 1 < length str then
           (let nextChar = str ! (i + 1) in
            if nextChar = CHR ''n'' then unescape_loop str (i + 2) (result @ [newline])
            else if nextChar = CHR ''t'' then unescape_loop str (i + 2) (result @ [tabchar])
            else if nextChar = CHR ''r'' then unescape_loop str (i + 2) (result @ [creturn])
            else if nextChar = dquote then unescape_loop str (i + 2) (result @ [dquote])
            else if nextChar = squote then unescape_loop str (i + 2) (result @ [squote])
            else if nextChar = bslash then unescape_loop str (i + 2) (result @ [bslash])
            else unescape_loop str (i + 1) (result @ [str ! i]))
         else unescape_loop str (i + 1) (result @ [str ! i]))
      else result)"
  by pat_completeness auto
termination
  by (relation "measure (\<lambda>(str, i, result). length str - i)") auto

declare unescape_loop.simps [simp del]

definition unescapeStringValue :: "string \<Rightarrow> string" where
  "unescapeStringValue str = unescape_loop str 0 []"

text \<open>What the five replacements do to one character.\<close>

definition esc_char :: "char \<Rightarrow> string" where
  "esc_char c =
     (if c = bslash then [bslash, bslash]
      else if c = dquote then [bslash, dquote]
      else if c = newline then [bslash, CHR ''n'']
      else if c = creturn then [bslash, CHR ''r'']
      else if c = tabchar then [bslash, CHR ''t'']
      else [c])"

section \<open>Conversions of the language\<close>

text \<open>
  The conversions between numbers and strings are the engine's: \<open>Number(s)\<close> on a
  string (its parsing of a numeric literal), \<open>String(n)\<close> on a number (the shortest
  decimal that reads back as the same double), \<open>toLowerCase\<close> and \<open>JSON.stringify\<close>.
  They are parameters of the model; the definitions below are the program's own use of
  them.
\<close>

record builtins =
  numberOfString :: "string \<Rightarrow> jsnum"
  stringOfNumber :: "jsnum \<Rightarrow> string"
  toLowerCase :: "string \<Rightarrow> string"
  jsonStringify :: "jsval \<Rightarrow> string"

section \<open>Strings and primitive conversions\<close>

text \<open>
  \<open>trim\<close> removes white space at both ends. Of the characters the engine counts as
  white space, the ASCII ones are represented.
\<close>

definition is_space :: "char \<Rightarrow> bool" where
  "is_space c = (c = CHR '' '' \<or> c = tabchar \<or> c = newline \<or> c = creturn
                 \<or> c = CHR 0x0B \<or> c = CHR 0x0C)"

definition trim :: "string \<Rightarrow> string" where
  "trim s = rev (dropWhile is_space (rev (dropWhile is_space s)))"

text \<open>\<open>s.startsWith(p)\<close> and \<open>s.endsWith(p)\<close>\<close>

definition startsWith :: "string \<Rightarrow> string \<Rightarrow> bool" where
  "startsWith s p = (take (length p) s = p)"

definition endsWith :: "string \<Rightarrow> string \<Rightarrow> bool" where
  "endsWith s p = (length p \<le> length s \<and> drop (length s - length p) s = p)"

text \<open>\<open>s.includes(p)\<close>\<close>

fun str_includes :: "string \<Rightarrow> string \<Rightarrow> bool" where
  "str_includes [] p = (p = [])"
| "str_includes (c # s) p = (startsWith (c # s) p \<or> str_includes s p)"

text \<open>\<open>path.split(".")\<close>, as a loop that carries the current segment\<close>

fun split_dot :: "string \<Rightarrow> string \<Rightarrow> string list" where
  "split_dot cur [] = [cur]"
| "split_dot cur (c # s) = (if c = CHR ''.'' then cur # split_dot [] s else split_dot (cur @ [c]) s)"

text \<open>The decimal string of an array index, as \<open>Object.keys\<close> of an array gives it.\<close>

definition digit_char :: "nat \<Rightarrow> char" where
  "digit_char n = ''0123456789'' ! n"

function string_of_nat :: "nat \<Rightarrow> string" where
  "string_of_nat n =
     (if n < 10 then [digit_char n] else string_of_nat (n div 10) @ [digit_char (n mod 10)])"
  by pat_completeness auto
termination
  by (relation "measure (\<lambda>n. n)") auto

declare string_of_nat.simps [simp del]

text \<open>\<open>arr.join(sep)\<close> on strings\<close>

fun join :: "string \<Rightarrow> string list \<Rightarrow> string" where
  "join sep [] = []"
| "join sep [x] = x"
| "join sep (x # y # ys) = x @ sep @ join sep (y # ys)"

text \<open>
  \<open>String(v)\<close>. An array is the comma-joined string forms of its elements, with
  \<open>null\<close> and \<open>undefined\<close> elements empty; a plain object is \<open>[object Object]\<close>.
\<close>

fun js_String :: "builtins \<Rightarrow> jsval \<Rightarrow> string" where
  "js_String b JUndefined = ''undefined''"
| "js_String b JNull = ''null''"
| "js_String b (JBool t) = (if t then ''true'' else ''false'')"
| "js_String b (JNum n) = stringOfNumber b n"
| "js_String b (JStr s) = s"
| "js_String b (JArr xs ex) =
     join '','' (map (\<lambda>x. if x = JUndefined \<or> x = JNull then [] else js_String b x) xs)"
| "js_String b (JObj ps) = ''[object Object]''"

text \<open>\<open>Number(v)\<close>: an array or object is converted through its string form.\<close>

definition js_Number :: "builtins \<Rightarrow> jsval \<Rightarrow> jsnum" where
  "js_Number b v =
     (case v of
        JUndefined \<Rightarrow> NaN
      | JNull \<Rightarrow> Fin 0
      | JBool t \<Rightarrow> (if t then Fin 1 else Fin 0)
      | JNum n \<Rightarrow> n
      | JStr s \<Rightarrow> numberOfString b s
      | _ \<Rightarrow> numberOfString b (js_String b v))"

text \<open>\<open>Boolean(v)\<close>\<close>

definition js_Boolean :: "jsval \<Rightarrow> bool" where
  "js_Boolean v =
     (case v of
        JUndefined \<Rightarrow> False
      | JNull \<Rightarrow> False
      | JBool t \<Rightarrow> t
      | JNum n \<Rightarrow> n \<noteq> NaN \<and> n \<noteq> Fin 0
      | JStr s \<Rightarrow> s \<noteq> []
      | _ \<Rightarrow> True)"

text \<open>\<open>currentDepth >= maxDepth\<close>, for a counter and a double\<close>

definition ge_depth :: "nat \<Rightarrow> jsnum \<Rightarrow> bool" where
  "ge_depth d m = (case m of NaN \<Rightarrow> False | PosInf \<Rightarrow> False | NegInf \<Rightarrow> True | Fin r \<Rightarrow> r \<le> of_nat d)"

text \<open>
  The enumerable own properties of an array or object, in the order of \<open>Object.keys\<close>:
  for an array its indices, then its named properties.
\<close>

definition own_props :: "jsval \<Rightarrow> props" where
  "own_props v =
     (case v of
        JArr xs ex \<Rightarrow> zip (map string_of_nat [0..<length xs]) xs @ ex
      | JObj ps \<Rightarrow> ps
      | _ \<Rightarrow> [])"

text \<open>
  \<open>obj[key]\<close> for a string key on any value that \<open>typeof\<close> calls an object: an array
  also answers \<open>length\<close>.
\<close>

definition get_prop :: "jsval \<Rightarrow> string \<Rightarrow> jsval" where
  "get_prop v k =
     (case v of
        JArr xs ex \<Rightarrow>
          if k = ''length'' then JNum (Fin (of_nat (length xs))) else obj_get (own_props v) k
      | JObj ps \<Rightarrow> obj_get ps k
      | _ \<Rightarrow> JUndefined)"

section \<open>Path addressing (utils/objectPath.ts)\<close>

definition is_container :: "jsval \<Rightarrow> bool" where
  "is_container v = (case v of JArr xs ex \<Rightarrow> True | JObj ps \<Rightarrow> True | _ \<Rightarrow> False)"

subsection \<open>Values with their prototype\<close>

text \<open>
  \<open>setAtPath\<close> assigns \<open>next[key] = v\<close> on a fresh copy for a key that the caller
  chooses, and \<open>getAtPath\<close> reads \<open>acc[key]\<close>; both go through the prototype of the
  object. So the values of this module carry it: an object has a prototype, which is
  \<open>Object.prototype\<close> (the one of every object literal and spread copy), \<open>null\<close>, or
  a value put there by an assignment to \<open>__proto__\<close>, and its own properties in
  insertion order. An array has its elements and named properties; its prototype is
  always \<open>Array.prototype\<close>.
\<close>

datatype 'a proto = DefaultProto | NullProto | ValProto 'a

datatype oval =
    OUndefined
  | ONull
  | OBool bool
  | ONum jsnum
  | OStr string
  | OArr "oval list" "(string \<times> oval) list"
  | OObj "oval proto" "(string \<times> oval) list"

type_synonym oprops = "(string \<times> oval) list"

text \<open>
  What a read can give: a value, \<open>Object.prototype\<close> itself, or one of the functions
  that the built-in prototypes hold.
\<close>

datatype rval = RVal oval | RObjectPrototype | RFunction

text \<open>A value of the other modules, as a value of this one: every object is ordinary.\<close>

fun of_jsval :: "jsval \<Rightarrow> oval" where
  "of_jsval JUndefined = OUndefined"
| "of_jsval JNull = ONull"
| "of_jsval (JBool t) = OBool t"
| "of_jsval (JNum n) = ONum n"
| "of_jsval (JStr s) = OStr s"
| "of_jsval (JArr xs ex) = OArr (map of_jsval xs) (map (\<lambda>kv. (fst kv, of_jsval (snd kv))) ex)"
| "of_jsval (JObj ps) = OObj DefaultProto (map (\<lambda>kv. (fst kv, of_jsval (snd kv))) ps)"

text \<open>
  The names under which \<open>Object.prototype\<close> and \<open>Array.prototype\<close> hold their
  functions are the engine's, and parameters here. The accessor \<open>__proto__\<close> of
  \<open>Object.prototype\<close> is not among them; it is written out below.
\<close>

record engine =
  objectPrototypeNames :: "string list"
  arrayPrototypeNames :: "string list"

text \<open>Creating or updating an own property: an existing key keeps its position.\<close>

fun own_set :: "oprops \<Rightarrow> string \<Rightarrow> oval \<Rightarrow> oprops" where
  "own_set [] k v = [(k, v)]"
| "own_set ((k', v') # ps) k v = (if k' = k then (k, v) # ps else (k', v') # own_set ps k v)"

text \<open>What the getter of \<open>__proto__\<close> returns for a receiver with the given prototype.\<close>

definition proto_value :: "oval proto \<Rightarrow> rval" where
  "proto_value pr =
     (case pr of DefaultProto \<Rightarrow> RObjectPrototype | NullProto \<Rightarrow> RVal ONull | ValProto v \<Rightarrow> RVal v)"

text \<open>A read that has reached \<open>Object.prototype\<close>, for a receiver with the given prototype.\<close>

definition object_prototype_get :: "engine \<Rightarrow> oval proto \<Rightarrow> string \<Rightarrow> rval" where
  "object_prototype_get e receiver k =
     (if k = ''__proto__'' then proto_value receiver
      else if k \<in> set (objectPrototypeNames e) then RFunction
      else RVal OUndefined)"

text \<open>The own properties of an array under a string key: its indices, \<open>length\<close>, its named properties.\<close>

definition array_own :: "oval list \<Rightarrow> oprops \<Rightarrow> string \<Rightarrow> oval option" where
  "array_own xs ex k =
     (case map_of (zip (map string_of_nat [0..<length xs]) xs) k of
        Some v \<Rightarrow> Some v
      | None \<Rightarrow> if k = ''length'' then Some (ONum (Fin (of_nat (length xs)))) else map_of ex k)"

text \<open>
  The search for a property along the prototype chain, from the prototype where it
  stands. The setter of \<open>__proto__\<close> stores objects, arrays and \<open>null\<close> only, so the last
  equation is about no object that exists.
\<close>

function (sequential) chain_get :: "engine \<Rightarrow> oval proto \<Rightarrow> oval proto \<Rightarrow> string \<Rightarrow> rval" where
  "chain_get e receiver DefaultProto k = object_prototype_get e receiver k"
| "chain_get e receiver NullProto k = RVal OUndefined"
| "chain_get e receiver (ValProto (OObj pr ps)) k =
     (case map_of ps k of Some v \<Rightarrow> RVal v | None \<Rightarrow> chain_get e receiver pr k)"
| "chain_get e receiver (ValProto (OArr xs ex)) k =
     (case array_own xs ex k of
        Some v \<Rightarrow> RVal v
      | None \<Rightarrow> if k \<noteq> ''__proto__'' \<and> k \<in> set (arrayPrototypeNames e) then RFunction
                else object_prototype_get e receiver k)"
| "chain_get e receiver (ValProto v) k = RVal OUndefined"
  by pat_completeness auto
termination
  by (relation "measure (\<lambda>(e, receiver, pr, k). size_proto size pr)") auto

text \<open>\<open>obj[k]\<close> on an object with prototype \<open>pr\<close> and own properties \<open>ps\<close>\<close>

definition obj_read :: "engine \<Rightarrow> oval proto \<Rightarrow> oprops \<Rightarrow> string \<Rightarrow> rval" where
  "obj_read e pr ps k = (case map_of ps k of Some v \<Rightarrow> RVal v | None \<Rightarrow> chain_get e pr pr k)"

text \<open>
  \<open>next[k] = v\<close> on an ordinary object with own properties \<open>ps\<close>. An own property is
  updated. Otherwise the key \<open>__proto__\<close> finds the setter of \<open>Object.prototype\<close>, which
  replaces the prototype when \<open>v\<close> is an object, an array or \<open>null\<close> and does nothing
  for any other \<open>v\<close>; every other key becomes a new own property.
\<close>

definition obj_write :: "oprops \<Rightarrow> string \<Rightarrow> oval \<Rightarrow> oval" where
  "obj_write ps k v =
     (if k \<in> set (map fst ps) then OObj DefaultProto (own_set ps k v)
      else if k = ''__proto__'' then
        (case v of
           ONull \<Rightarrow> OObj NullProto ps
         | OArr xs ex \<Rightarrow> OObj (ValProto v) ps
         | OObj pr qs \<Rightarrow> OObj (ValProto v) ps
         | _ \<Rightarrow> OObj DefaultProto ps)
      else OObj DefaultProto (own_set ps k v))"

text \<open>
  The array index a number denotes as a property key: a whole number from 0 to
  \<open>2^32 - 2\<close>. Any other number is a named property, under its string form; the string
  form of a number is no name of \<open>Array.prototype\<close> or \<open>Object.prototype\<close>.
\<close>

definition array_index :: "jsnum \<Rightarrow> nat option" where
  "array_index n =
     (case n of
        Fin r \<Rightarrow> if 0 \<le> r \<and> r < 4294967295 \<and> of_int \<lfloor>r\<rfloor> = r then Some (nat \<lfloor>r\<rfloor>) else None
      | _ \<Rightarrow> None)"

text \<open>\<open>arr[n]\<close> for a number \<open>n\<close>, on the elements \<open>xs\<close> and named properties \<open>ex\<close>\<close>

definition arr_get :: "builtins \<Rightarrow> oval list \<Rightarrow> oprops \<Rightarrow> jsnum \<Rightarrow> oval" where
  "arr_get b xs ex n =
     (case array_index n of
        Some i \<Rightarrow> if i < length xs then xs ! i else OUndefined
      | None \<Rightarrow> (case map_of ex (stringOfNumber b n) of Some v \<Rightarrow> v | None \<Rightarrow> OUndefined))"

text \<open>\<open>arr[n] = v\<close>: writing past the end extends the array, leaving holes\<close>

definition arr_set :: "builtins \<Rightarrow> oval list \<Rightarrow> oprops \<Rightarrow> jsnum \<Rightarrow> oval \<Rightarrow> oval" where
  "arr_set b xs ex n v =
     (case array_index n of
        Some i \<Rightarrow>
          if i < length xs then OArr (xs[i := v]) ex
          else OArr (xs @ replicate (i - length xs) OUndefined @ [v]) ex
      | None \<Rightarrow> OArr xs (own_set ex (stringOfNumber b n) v))"

subsection \<open>The functions\<close>

datatype pathpart = PStr string | PNum jsnum

text \<open>\<open>typeof head === "number" ? head : Number(head)\<close>\<close>

definition part_index :: "builtins \<Rightarrow> pathpart \<Rightarrow> jsnum" where
  "part_index b head = (case head of PNum n \<Rightarrow> n | PStr s \<Rightarrow> numberOfString b s)"

text \<open>\<open>String(head)\<close>\<close>

definition part_key :: "builtins \<Rightarrow> pathpart \<Rightarrow> string" where
  "part_key b head = (case head of PNum n \<Rightarrow> stringOfNumber b n | PStr s \<Rightarrow> s)"

text \<open>\<open>Array.isArray(target)\<close>\<close>

definition isArray :: "rval \<Rightarrow> bool" where
  "isArray t = (case t of RVal (OArr xs ex) \<Rightarrow> True | _ \<Rightarrow> False)"

text \<open>\<open>target && typeof target === "object"\<close>; the \<open>typeof\<close> a function is \<open>function\<close>\<close>

definition is_object :: "rval \<Rightarrow> bool" where
  "is_object t =
     (case t of
        RVal (OArr xs ex) \<Rightarrow> True
      | RVal (OObj pr ps) \<Rightarrow> True
      | RObjectPrototype \<Rightarrow> True
      | _ \<Rightarrow> False)"

text \<open>\<open>[...target]\<close>: the elements, without the named properties\<close>

definition spread_elements :: "rval \<Rightarrow> oval list" where
  "spread_elements t = (case t of RVal (OArr xs ex) \<Rightarrow> xs | _ \<Rightarrow> [])"

text \<open>
  \<open>{...target}\<close>: the own enumerable properties, as own properties of an ordinary
  object; \<open>Object.prototype\<close> has none that is enumerable.
\<close>

definition spread_props :: "rval \<Rightarrow> oprops" where
  "spread_props t = (case t of RVal (OObj pr ps) \<Rightarrow> ps | _ \<Rightarrow> [])"

function setAtPath :: "builtins \<Rightarrow> engine \<Rightarrow> rval \<Rightarrow> pathpart list \<Rightarrow> oval \<Rightarrow> oval" where
  "setAtPath b e target [] val = val"
| "setAtPath b e target (head # rest) val =
     (if isArray target then
        (let index = part_index b head; next = spread_elements target
         in arr_set b next [] index (setAtPath b e (RVal (arr_get b next [] index)) rest val))
      else if is_object target then
        (let next = spread_props target; key = part_key b head
         in obj_write next key (setAtPath b e (obj_read e DefaultProto next key) rest val))
      else
        setAtPath b e
          (RVal (case head of PNum n \<Rightarrow> OArr [] [] | PStr s \<Rightarrow> OObj DefaultProto []))
          (head # rest) val)"
  by pat_completeness auto
termination
  by (relation "measures [\<lambda>(b, e, target, path, val). length path,
                          \<lambda>(b, e, target, path, val). if is_object target then 0 else 1]")
     (auto simp: is_object_def split: pathpart.splits)

text \<open>
  One step of the \<open>reduce\<close> in \<open>getAtPath\<close>. \<open>Object.prototype\<close> is an object whose
  prototype is \<open>null\<close>.
\<close>

definition get_step :: "builtins \<Rightarrow> engine \<Rightarrow> rval \<Rightarrow> pathpart \<Rightarrow> rval" where
  "get_step b e acc part =
     (case acc of
        RVal (OArr xs ex) \<Rightarrow> RVal (arr_get b xs ex (part_index b part))
      | RVal (OObj pr ps) \<Rightarrow> obj_read e pr ps (part_key b part)
      | RObjectPrototype \<Rightarrow> object_prototype_get e NullProto (part_key b part)
      | _ \<Rightarrow> RVal OUndefined)"

definition getAtPath :: "builtins \<Rightarrow> engine \<Rightarrow> rval \<Rightarrow> pathpart list \<Rightarrow> rval" where
  "getAtPath b e target path = foldl (get_step b e) target path"

text \<open>
  Whether \<open>setAtPath\<close> on this target and path comes to assign to \<open>__proto__\<close> on an
  object that has no own property of that name, where the assignment runs the inherited
  setter. The recursion is the one of \<open>setAtPath\<close>.
\<close>

function runs_proto_setter :: "builtins \<Rightarrow> engine \<Rightarrow> rval \<Rightarrow> pathpart list \<Rightarrow> bool" where
  "runs_proto_setter b e target [] = False"
| "runs_proto_setter b e target (head # rest) =
     (if isArray target then
        (let index = part_index b head; next = spread_elements target
         in runs_proto_setter b e (RVal (arr_get b next [] index)) rest)
      else if is_object target then
        (let next = spread_props target; key = part_key b head
         in (key = ''__proto__'' \<and> key \<notin> set (map fst next))
            \<or> runs_proto_setter b e (obj_read e DefaultProto next key) rest)
      else
        runs_proto_setter b e
          (RVal (case head of PNum n \<Rightarrow> OArr [] [] | PStr s \<Rightarrow> OObj DefaultProto []))
          (head # rest))"
  by pat_completeness auto
termination
  by (relation "measures [\<lambda>(b, e, target, path). length path,
                          \<lambda>(b, e, target, path). if is_object target then 0 else 1]")
     (auto simp: is_object_def split: pathpart.splits)

section \<open>Flattening (worker)\<close>

definition isEAVObject :: "jsval \<Rightarrow> bool" where
  "isEAVObject obj =
     (case obj of
        JObj r \<Rightarrow>
          has_key r ''label'' \<and> has_key r ''value''
          \<and> (case obj_get r ''label'' of JStr l \<Rightarrow> 0 < length l | _ \<Rightarrow> False)
      | _ \<Rightarrow> False)"

lemma size_obj_get_le: "size (obj_get ps k) \<le> size_list (size_prod (\<lambda>_. 0) size) ps"
  by (induction ps) auto

lemma size_own_props_value:
  "(k, v) \<in> set (own_props obj) \<Longrightarrow> size v < size obj"
proof (cases obj)
  case (JArr xs ex)
  assume "(k, v) \<in> set (own_props obj)"
  then have "v \<in> set xs \<or> (k, v) \<in> set ex"
    using JArr by (auto simp: own_props_def dest: set_zip_rightD)
  then show ?thesis
  proof
    assume "v \<in> set xs"
    then have "size v \<le> size_list size xs" by (simp add: size_list_estimation')
    then show ?thesis using JArr by simp
  next
    assume "(k, v) \<in> set ex"
    then have "size_prod (\<lambda>_. 0) size (k, v) \<le> size_list (size_prod (\<lambda>_. 0) size) ex"
      by (rule size_list_estimation') simp
    then show ?thesis using JArr by simp
  qed
next
  case (JObj ps)
  assume "(k, v) \<in> set (own_props obj)"
  then have "(k, v) \<in> set ps" using JObj by (simp add: own_props_def)
  then have "size_prod (\<lambda>_. 0) size (k, v) \<le> size_list (size_prod (\<lambda>_. 0) size) ps"
    by (rule size_list_estimation') simp
  then show ?thesis using JObj by simp
qed (auto simp: own_props_def)

lemma obj_get_in_set: "obj_get ps k \<noteq> JUndefined \<Longrightarrow> (\<exists>k'. (k', obj_get ps k) \<in> set ps)"
  by (induction ps) (auto split: if_splits)

function flattenObject :: "jsval \<Rightarrow> string \<Rightarrow> props \<Rightarrow> jsnum \<Rightarrow> nat \<Rightarrow> bool \<Rightarrow> props" where
  "flattenObject obj prefix result maxDepth currentDepth useSmartEAV =
     (if \<not> is_container obj then
        (if prefix \<noteq> [] then obj_set result prefix obj else result)
      else if ge_depth currentDepth maxDepth then obj_set result prefix obj
      else if useSmartEAV \<and> isEAVObject obj then
        (let eavLabel = (case obj_get (own_props obj) ''label'' of JStr l \<Rightarrow> l | _ \<Rightarrow> []);
             eavValue = obj_get (own_props obj) ''value'';
             cleanLabel = replaceAll (CHR ''.'') ''_'' (trim eavLabel);
             eavKey = (if prefix \<noteq> [] then prefix @ ''.'' @ cleanLabel else cleanLabel)
         in if \<not> is_container eavValue then obj_set result eavKey eavValue
            else flattenObject eavValue eavKey result maxDepth (currentDepth + 1) useSmartEAV)
      else if own_props obj = [] then
        (if prefix \<noteq> [] then obj_set result prefix obj else result)
      else
        foldl (\<lambda>res kv.
                 let key = fst kv; val = snd kv;
                     nextKey = (if prefix \<noteq> [] then prefix @ ''.'' @ key else key)
                 in if is_container val
                    then flattenObject val nextKey res maxDepth (currentDepth + 1) useSmartEAV
                    else obj_set res nextKey val)
          result (own_props obj))"
  by pat_completeness auto
termination
proof (relation "measure (\<lambda>(obj, prefix, result, maxDepth, currentDepth, useSmartEAV). size obj)")
  show "wf (measure (\<lambda>(obj, prefix, result, maxDepth, currentDepth, useSmartEAV). size obj))"
    by simp
next
  fix obj :: jsval and prefix :: string and result :: props and maxDepth :: jsnum
    and currentDepth :: nat and useSmartEAV :: bool and x xa xb xc
  assume "xa = obj_get (own_props obj) ''value''" and c: "\<not> \<not> is_container xa"
  then have "xa \<noteq> JUndefined" by (auto simp: is_container_def)
  then obtain k where "(k, xa) \<in> set (own_props obj)"
    using obj_get_in_set \<open>xa = obj_get (own_props obj) ''value''\<close> by blast
  then have "size xa < size obj" by (rule size_own_props_value)
  then show "((xa, xc, result, maxDepth, currentDepth + 1, useSmartEAV),
              obj, prefix, result, maxDepth, currentDepth, useSmartEAV)
             \<in> measure (\<lambda>(obj, prefix, result, maxDepth, currentDepth, useSmartEAV). size obj)"
    by simp
next
  fix obj :: jsval and prefix :: string and result :: props and maxDepth :: jsnum
    and currentDepth :: nat and useSmartEAV :: bool and z y x xa xb xc
  assume "y \<in> set (own_props obj)" and "xb = snd y"
  then have "(fst y, xb) \<in> set (own_props obj)" by simp
  then have "size xb < size obj" by (rule size_own_props_value)
  then show "((xb, xc, z, maxDepth, currentDepth + 1, useSmartEAV),
              obj, prefix, result, maxDepth, currentDepth, useSmartEAV)
             \<in> measure (\<lambda>(obj, prefix, result, maxDepth, currentDepth, useSmartEAV). size obj)"
    by simp
qed

declare flattenObject.simps [simp del]

section \<open>Dot paths (worker)\<close>

text \<open>The \<open>for (const segment of segments)\<close> loop of \<open>getValueByPath\<close>.\<close>

fun walk_segments :: "string list \<Rightarrow> jsval \<Rightarrow> jsval" where
  "walk_segments [] current = current"
| "walk_segments (segment # segments) current =
     (if current = JNull \<or> current = JUndefined then JUndefined
      else if \<not> is_container current then JUndefined
      else walk_segments segments (get_prop current segment))"

definition getValueByPath :: "jsval \<Rightarrow> string \<Rightarrow> jsval" where
  "getValueByPath target path =
     (if path = [] \<or> target = JNull \<or> target = JUndefined then JUndefined
      else walk_segments (filter (\<lambda>seg. seg \<noteq> []) (split_dot [] path)) target)"

section \<open>Smart recursive parse (worker)\<close>

text \<open>The length of the longest string among the elements and property values of a value.\<close>

fun strbound :: "jsval \<Rightarrow> nat" where
  "strbound (JStr s) = length s"
| "strbound (JArr xs ex) = foldr max (map strbound xs) 0"
| "strbound (JObj ps) = foldr max (map (\<lambda>kv. strbound (snd kv)) ps) 0"
| "strbound v = 0"

text \<open>
  The JSON parser is the library's (\<open>json-bigint\<close>, which keeps large integers as
  strings); \<open>None\<close> stands for its throwing. It is a parameter. Whatever text it accepts,
  the strings in its result are shorter than the text, as they are for every parser of
  JSON text: a string of the result is written out inside the text, between quotes or as
  the digits of a number.
\<close>

typedef parser = "{p :: string \<Rightarrow> jsval option. \<forall>s v. p s = Some v \<longrightarrow> strbound v < length s}"
  by (rule exI [of _ "\<lambda>s. None"]) simp

setup_lifting type_definition_parser

lemma parser_shrinks: "Rep_parser p s = Some v \<Longrightarrow> strbound v < length s"
  using Rep_parser [of p] by simp

lemma strbound_elem: "x \<in> set xs \<Longrightarrow> strbound x \<le> foldr max (map strbound xs) 0"
  by (induction xs) auto

lemma strbound_prop: "kv \<in> set ps \<Longrightarrow> strbound (snd kv) \<le> foldr max (map (\<lambda>kv. strbound (snd kv)) ps) 0"
  by (induction ps) auto

lemma length_trim_le: "length (trim s) \<le> length s"
proof -
  have "length (dropWhile is_space (rev (dropWhile is_space s))) \<le> length (rev (dropWhile is_space s))"
    by (rule length_dropWhile_le)
  then have "length (trim s) \<le> length (dropWhile is_space s)"
    unfolding trim_def by simp
  also have "\<dots> \<le> length s" by (rule length_dropWhile_le)
  finally show ?thesis .
qed

lemma size_elem: "x \<in> set xs \<Longrightarrow> size x < size (JArr xs ex)"
proof -
  assume "x \<in> set xs"
  then have "size x \<le> size_list size xs" by (simp add: size_list_estimation')
  then show ?thesis by simp
qed

lemma size_prop: "kv \<in> set ps \<Longrightarrow> size (snd kv) < size (JObj ps)"
  using size_own_props_value [of "fst kv" "snd kv" "JObj ps"] by (simp add: own_props_def)

text \<open>
  \<open>smartParseValue(value, warnings)\<close>. The function never writes to \<open>warnings\<close>, so the
  list is left out.
\<close>

function smartParseValue :: "parser \<Rightarrow> jsval \<Rightarrow> jsval" where
  "smartParseValue p (JStr s) =
     (let trimmed = trim s in
      if (startsWith trimmed ''{'' \<and> endsWith trimmed ''}'')
         \<or> (startsWith trimmed ''['' \<and> endsWith trimmed '']'')
      then (case Rep_parser p trimmed of
              Some parsed \<Rightarrow> if is_container parsed then smartParseValue p parsed else JStr s
            | None \<Rightarrow> JStr s)
      else JStr s)"
| "smartParseValue p (JArr xs ex) = JArr (map (smartParseValue p) xs) []"
| "smartParseValue p (JObj ps) =
     JObj (foldl (\<lambda>result kv. obj_set result (fst kv) (smartParseValue p (snd kv))) [] ps)"
| "smartParseValue p JUndefined = JUndefined"
| "smartParseValue p JNull = JNull"
| "smartParseValue p (JBool t) = JBool t"
| "smartParseValue p (JNum n) = JNum n"
  by pat_completeness auto
termination
proof (relation "measures [\<lambda>(p, v). strbound v, \<lambda>(p, v). size v]")
  show "wf (measures [\<lambda>(p, v). strbound v, \<lambda>(p, v). size v])" by simp
next
  fix p :: parser and s :: string and x x2
  assume "x = trim s" and "Rep_parser p x = Some x2"
  then have "strbound x2 < length (trim s)" using parser_shrinks by blast
  then have "strbound x2 < length s" using length_trim_le [of s] by simp
  then show "((p, x2), p, JStr s) \<in> measures [\<lambda>(p, v). strbound v, \<lambda>(p, v). size v]"
    by simp
next
  fix p :: parser and xs :: "jsval list" and ex :: props and x
  assume "x \<in> set xs"
  then show "((p, x), p, JArr xs ex) \<in> measures [\<lambda>(p, v). strbound v, \<lambda>(p, v). size v]"
    using strbound_elem [of x xs] size_elem [of x xs ex] by auto
next
  fix p :: parser and ps :: props and y
  assume "y \<in> set ps"
  then show "((p, snd y), p, JObj ps) \<in> measures [\<lambda>(p, v). strbound v, \<lambda>(p, v). size v]"
    using strbound_prop [of y ps] size_prop [of y ps] by auto
qed

section \<open>Batch operations (worker)\<close>

datatype addMode = ModeStatic | ModeCopy

datatype updateMode = ModeSet | ModePrefixSuffix

datatype convTarget = TargetString | TargetNumber | TargetBoolean

text \<open>
  \<open>BatchAction\<close>, one constructor for each \<open>kind\<close>; an optional field is an \<open>option\<close>.
  The fields are in the order of the type declaration.
\<close>

datatype BatchAction =
    AddField string addMode "string option" "string option"
      \<comment> \<open>key, mode, value, fromKey\<close>
  | DeleteField "string list"
  | RenameField string string
  | UpdateValue string updateMode "string option" "string option" "string option"
      \<comment> \<open>key, mode, value, prefix, suffix\<close>
  | TypeConvert string convTarget
  | ExtractByCondition string string string string string
      \<comment> \<open>sourceField, matchKey, matchValue, extractKey, targetField\<close>
  | NestFields "string list" string
      \<comment> \<open>sourceFields, targetField\<close>
  | FlattenStrip "string option" "jsnum option" "string option" "string list option"
      "bool option" "bool option"
      \<comment> \<open>stripPrefix, depth, targetKey, targetKeys, keepPrefix, useSmartEAV\<close>
  | KeyReorder "string list"
  | EscapeString "string option" "string list option"
      \<comment> \<open>key, targetKeys\<close>
  | UnescapeString "string option" "string list option"
  | ParseJSON "string option" "string list option"

text \<open>\<open>x ?? ""\<close> for an optional string\<close>

definition or_empty :: "string option \<Rightarrow> string" where
  "or_empty x = (case x of None \<Rightarrow> [] | Some s \<Rightarrow> s)"

text \<open>\<open>action.targetKeys ?? (action.key ? [action.key] : [])\<close>\<close>

definition target_keys :: "string option \<Rightarrow> string list option \<Rightarrow> string list" where
  "target_keys key targetKeys =
     (case targetKeys of
        Some ks \<Rightarrow> ks
      | None \<Rightarrow> (case key of Some k \<Rightarrow> if k \<noteq> [] then [k] else [] | None \<Rightarrow> []))"

definition addField :: "string \<Rightarrow> addMode \<Rightarrow> string option \<Rightarrow> string option \<Rightarrow> props \<Rightarrow> props" where
  "addField key mode val fromKey record =
     (let v = (case fromKey of
                 Some fk \<Rightarrow> if mode = ModeCopy \<and> fk \<noteq> [] then obj_get record fk
                            else JStr (or_empty val)
               | None \<Rightarrow> JStr (or_empty val))
      in obj_set record key v)"

definition deleteField :: "string list \<Rightarrow> props \<Rightarrow> props" where
  "deleteField keys record = foldl obj_delete record keys"

definition renameField :: "string \<Rightarrow> string \<Rightarrow> props \<Rightarrow> props" where
  "renameField from to record =
     (if \<not> has_key record from then record
      else obj_delete (obj_set record to (obj_get record from)) from)"

definition updateValue ::
  "string \<Rightarrow> updateMode \<Rightarrow> string option \<Rightarrow> string option \<Rightarrow> string option \<Rightarrow> props \<Rightarrow> props" where
  "updateValue key mode val prefix suffix record =
     (if \<not> has_key record key then record
      else if mode = ModeSet then obj_set record key (JStr (or_empty val))
      else (case obj_get record key of
              JStr current \<Rightarrow> obj_set record key (JStr (or_empty prefix @ current @ or_empty suffix))
            | _ \<Rightarrow> record))"

definition extractByCondition ::
  "string \<Rightarrow> string \<Rightarrow> string \<Rightarrow> string \<Rightarrow> string \<Rightarrow> props \<Rightarrow> props" where
  "extractByCondition sourceField matchKey matchValue extractKey targetField record =
     (case getValueByPath (JObj record) sourceField of
        JArr source ex \<Rightarrow>
          (case find (\<lambda>item. is_container item \<and> getValueByPath item matchKey = JStr matchValue)
                  source of
             None \<Rightarrow> record
           | Some matched \<Rightarrow>
               (let extracted = getValueByPath matched extractKey
                in if extracted = JUndefined then record
                   else obj_set record targetField extracted))
      | _ \<Rightarrow> record)"

text \<open>
  The \<open>nestFields\<close> case. The loop over \<open>sourceFields\<close> carries the target object and
  the record, and moves one field at a step.
\<close>

definition nest_step :: "props \<times> props \<Rightarrow> string \<Rightarrow> props \<times> props" where
  "nest_step st field =
     (case st of (targetObject, next) \<Rightarrow>
        (obj_set targetObject field (obj_get next field), obj_delete next field))"

definition nestFields :: "string list \<Rightarrow> string \<Rightarrow> props \<Rightarrow> props" where
  "nestFields sourceFields targetField record =
     (if targetField = [] \<or> sourceFields = [] then record
      else
        (let existing = obj_get record targetField;
             targetObject = (case existing of JObj ps \<Rightarrow> ps | _ \<Rightarrow> []);
             st = foldl nest_step (targetObject, record) sourceFields
         in obj_set (snd st) targetField (JObj (fst st))))"

text \<open>
  The text put before the value in the warning of a failed number conversion, as the
  bytes of the source's literal in UTF-8; it says that the value cannot be converted to
  a number.
\<close>

definition number_warning_prefix :: string where
  "number_warning_prefix =
     [CHR 0xE6, CHR 0x97, CHR 0xA0, CHR 0xE6, CHR 0xB3, CHR 0x95, CHR 0xE8, CHR 0xBD, CHR 0xAC,
      CHR 0xE6, CHR 0x8D, CHR 0xA2, CHR 0xE4, CHR 0xB8, CHR 0xBA, CHR 0xE6, CHR 0x95, CHR 0xB0,
      CHR 0xE5, CHR 0xAD, CHR 0x97, CHR 0x3A, CHR 0x20]"

text \<open>The \<open>typeConvert\<close> case: the new record and the warnings after it.\<close>

definition typeConvert ::
  "builtins \<Rightarrow> string \<Rightarrow> convTarget \<Rightarrow> props \<Rightarrow> string list \<Rightarrow> props \<times> string list" where
  "typeConvert b key target record warnings =
     (if \<not> has_key record key then (record, warnings)
      else
        (let current = obj_get record key in
         case target of
           TargetString \<Rightarrow> (obj_set record key (JStr (js_String b current)), warnings)
         | TargetNumber \<Rightarrow>
             (let num = js_Number b current in
              if num = NaN
              then (record, warnings @ [number_warning_prefix @ js_String b current])
              else (obj_set record key (JNum num), warnings))
         | TargetBoolean \<Rightarrow> (obj_set record key (JBool (js_Boolean current)), warnings)))"

text \<open>The \<open>flattenStrip\<close> case.\<close>

definition flatten_target ::
  "bool \<Rightarrow> jsnum \<Rightarrow> bool \<Rightarrow> props \<Rightarrow> string \<Rightarrow> props" where
  "flatten_target keepPrefix depth useSmartEAV result targetKey =
     (if has_key result targetKey then
        (let targetValue = obj_get result targetKey in
         if is_container targetValue then
           (let prefix = (if keepPrefix then targetKey else []);
                flattened = flattenObject targetValue prefix [] depth 0 useSmartEAV
            in obj_assign (obj_delete result targetKey) flattened)
         else result)
      else result)"

definition strip_step :: "string \<Rightarrow> props \<Rightarrow> string \<times> jsval \<Rightarrow> props" where
  "strip_step stripPrefix stripped kv =
     (let key = fst kv;
          nextKey = (if startsWith key stripPrefix then drop (length stripPrefix) key else key)
      in obj_set stripped nextKey (snd kv))"

definition flattenStrip ::
  "string option \<Rightarrow> jsnum option \<Rightarrow> string option \<Rightarrow> string list option \<Rightarrow> bool option
     \<Rightarrow> bool option \<Rightarrow> props \<Rightarrow> props" where
  "flattenStrip stripPrefix depthOpt targetKey targetKeysOpt keepPrefixOpt useSmartEAVOpt record =
     (let depth = (case depthOpt of None \<Rightarrow> PosInf | Some d \<Rightarrow> d);
          keepPrefix = (case keepPrefixOpt of None \<Rightarrow> True | Some k \<Rightarrow> k);
          useSmartEAV = (case useSmartEAVOpt of None \<Rightarrow> False | Some u \<Rightarrow> u);
          targetKeys = target_keys targetKey targetKeysOpt;
          result = (if targetKeys \<noteq> []
                    then foldl (flatten_target keepPrefix depth useSmartEAV) record targetKeys
                    else flattenObject (JObj record) [] [] depth 0 useSmartEAV)
      in case stripPrefix of
           Some sp \<Rightarrow> if sp \<noteq> [] then foldl (strip_step sp) [] result else result
         | None \<Rightarrow> result)"

definition keyReorder :: "string list \<Rightarrow> props \<Rightarrow> props" where
  "keyReorder order record =
     (let next1 = foldl (\<lambda>next key. if has_key record key
                                      then obj_set next key (obj_get record key) else next)
                    [] order
      in foldl (\<lambda>next key. if \<not> has_key next key
                             then obj_set next key (obj_get record key) else next)
           next1 (map fst record))"

text \<open>
  The \<open>escapeString\<close> case. \<open>JSON.stringify\<close> throws on a cyclic structure or a
  \<open>BigInt\<close> only, and no \<open>jsval\<close> is either, so the \<open>catch\<close> branches are never entered.
\<close>

definition escape_field :: "builtins \<Rightarrow> props \<Rightarrow> string \<Rightarrow> props" where
  "escape_field b next key =
     (let current = obj_get next key in
      case current of
        JStr str \<Rightarrow> obj_set next key (JStr (escapeStringValue str))
      | JArr xs ex \<Rightarrow> obj_set next key (JStr (jsonStringify b current))
      | JObj ps \<Rightarrow> obj_set next key (JStr (jsonStringify b current))
      | _ \<Rightarrow> next)"

definition escapeString :: "builtins \<Rightarrow> string option \<Rightarrow> string list option \<Rightarrow> props \<Rightarrow> props" where
  "escapeString b key targetKeysOpt record =
     (let targetKeys = target_keys key targetKeysOpt in
      if targetKeys \<noteq> []
      then foldl (\<lambda>next key. if has_key next key then escape_field b next key else next)
             record targetKeys
      else foldl (escape_field b) record (map fst record))"

definition unescape_field :: "props \<Rightarrow> string \<Rightarrow> props" where
  "unescape_field next key =
     (case obj_get next key of
        JStr str \<Rightarrow> obj_set next key (JStr (unescapeStringValue str))
      | _ \<Rightarrow> next)"

definition unescapeString :: "string option \<Rightarrow> string list option \<Rightarrow> props \<Rightarrow> props" where
  "unescapeString key targetKeysOpt record =
     (let targetKeys = target_keys key targetKeysOpt in
      if targetKeys \<noteq> []
      then foldl (\<lambda>next key. if has_key next key then unescape_field next key else next)
             record targetKeys
      else foldl unescape_field record (map fst record))"

text \<open>The \<open>parseJSON\<close> case; \<open>parse_key\<close> is the body of its loop over the target keys.\<close>

definition parse_key :: "parser \<Rightarrow> props \<Rightarrow> string \<Rightarrow> props" where
  "parse_key p next key =
     (if has_key next key then obj_set next key (smartParseValue p (obj_get next key)) else next)"

definition parseJSON :: "parser \<Rightarrow> string option \<Rightarrow> string list option \<Rightarrow> props \<Rightarrow> jsval" where
  "parseJSON p key targetKeysOpt record =
     (let targetKeys = target_keys key targetKeysOpt in
      if targetKeys \<noteq> []
      then JObj (foldl (parse_key p) record targetKeys)
      else smartParseValue p (JObj record))"

text \<open>
  The body of the \<open>switch\<close> in \<open>applyBatch\<close>, for a record that is a plain object: the
  new record and the warnings after it.
\<close>

fun applyRecord ::
  "builtins \<Rightarrow> parser \<Rightarrow> BatchAction \<Rightarrow> props \<Rightarrow> string list \<Rightarrow> jsval \<times> string list" where
  "applyRecord b p (AddField key mode val fromKey) record ws =
     (JObj (addField key mode val fromKey record), ws)"
| "applyRecord b p (DeleteField keys) record ws = (JObj (deleteField keys record), ws)"
| "applyRecord b p (RenameField from to) record ws = (JObj (renameField from to record), ws)"
| "applyRecord b p (UpdateValue key mode val prefix suffix) record ws =
     (JObj (updateValue key mode val prefix suffix record), ws)"
| "applyRecord b p (ExtractByCondition sourceField matchKey matchValue extractKey targetField) record ws =
     (JObj (extractByCondition sourceField matchKey matchValue extractKey targetField record), ws)"
| "applyRecord b p (NestFields sourceFields targetField) record ws =
     (JObj (nestFields sourceFields targetField record), ws)"
| "applyRecord b p (TypeConvert key target) record ws =
     (case typeConvert b key target record ws of (next, ws') \<Rightarrow> (JObj next, ws'))"
| "applyRecord b p (FlattenStrip stripPrefix depth targetKey targetKeys keepPrefix useSmartEAV) record ws =
     (JObj (flattenStrip stripPrefix depth targetKey targetKeys keepPrefix useSmartEAV record), ws)"
| "applyRecord b p (KeyReorder order) record ws = (JObj (keyReorder order record), ws)"
| "applyRecord b p (EscapeString key targetKeys) record ws =
     (JObj (escapeString b key targetKeys record), ws)"
| "applyRecord b p (UnescapeString key targetKeys) record ws =
     (JObj (unescapeString key targetKeys record), ws)"
| "applyRecord b p (ParseJSON key targetKeys) record ws = (parseJSON p key targetKeys record, ws)"

text \<open>
  The callback of \<open>data.map\<close>: an item that is not a plain object (\<open>null\<close>, a scalar or
  an array) is returned as it is.
\<close>

definition applyItem ::
  "builtins \<Rightarrow> parser \<Rightarrow> BatchAction \<Rightarrow> jsval \<Rightarrow> string list \<Rightarrow> jsval \<times> string list" where
  "applyItem b p action item ws =
     (case item of JObj record \<Rightarrow> applyRecord b p action record ws | _ \<Rightarrow> (item, ws))"

text \<open>
  \<open>applyBatch(data, action)\<close>: the map over the data, from the first item to the last,
  with the \<open>warnings\<close> array that the callbacks push to.
\<close>

definition batch_step ::
  "builtins \<Rightarrow> parser \<Rightarrow> BatchAction \<Rightarrow> jsval list \<times> string list \<Rightarrow> jsval \<Rightarrow> jsval list \<times> string list" where
  "batch_step b p action st item =
     (case st of (nextData, ws) \<Rightarrow>
        (case applyItem b p action item ws of (r, ws') \<Rightarrow> (nextData @ [r], ws')))"

definition applyBatch ::
  "builtins \<Rightarrow> parser \<Rightarrow> jsval list \<Rightarrow> BatchAction \<Rightarrow> jsval list \<times> string list" where
  "applyBatch b p data action = foldl (batch_step b p action) ([], []) data"


section \<open>The store (store/fileStore.ts)\<close>

datatype operator = Contains | Equals | StartsWith | EndsWith | NotContains | IsEmpty | IsNotEmpty

record FilterRule =
  rule_id :: string
  rule_field :: string
  rule_operator :: operator
  rule_value :: string

record FilterGroup =
  group_id :: string
  rules :: "FilterRule list"

text \<open>Of a file, its id, its records and its key order; the other fields are not used here.\<close>

record FileSource =
  file_id :: string
  file_data :: "jsval list"
  keyOrder :: "string list option"

record HistoryEntry =
  entry_data :: "jsval list"
  entry_keyOrder :: "string list option"

record FileHistory =
  past :: "HistoryEntry list"
  future :: "HistoryEntry list"

record FileState =
  files :: "FileSource list"
  activeFileId :: "string option"
  currentIndex :: int
  history :: "string \<rightharpoonup> FileHistory"
  searchQuery :: string
  filterGroups :: "FilterGroup list"
  filteredIndices :: "nat list"

definition MAX_HISTORY :: nat where
  "MAX_HISTORY = 50"

text \<open>\<open>files.find((f) => f.id === activeFileId)\<close>\<close>

definition active_file :: "FileState \<Rightarrow> FileSource option" where
  "active_file st =
     (case activeFileId st of
        None \<Rightarrow> None
      | Some fid \<Rightarrow> find (\<lambda>f. file_id f = fid) (files st))"

text \<open>A change made to the file that \<open>find\<close> returns: the first one with the id.\<close>

fun update_first :: "string \<Rightarrow> (FileSource \<Rightarrow> FileSource) \<Rightarrow> FileSource list \<Rightarrow> FileSource list" where
  "update_first fid g [] = []"
| "update_first fid g (f # fs) = (if file_id f = fid then g f # fs else f # update_first fid g fs)"

text \<open>
  \<open>JSON.parse(JSON.stringify(v))\<close> for a value inside an array: \<open>undefined\<close> and the
  numbers that are not finite come back as \<open>null\<close>, a property whose value is
  \<open>undefined\<close> is dropped, and so are the named properties of an array.
\<close>

fun json_clone :: "jsval \<Rightarrow> jsval" where
  "json_clone JUndefined = JNull"
| "json_clone JNull = JNull"
| "json_clone (JBool t) = JBool t"
| "json_clone (JNum n) = (case n of Fin r \<Rightarrow> JNum (Fin r) | _ \<Rightarrow> JNull)"
| "json_clone (JStr s) = JStr s"
| "json_clone (JArr xs ex) = JArr (map json_clone xs) []"
| "json_clone (JObj ps) =
     JObj (map (\<lambda>kv. (fst kv, json_clone (snd kv))) (filter (\<lambda>kv. snd kv \<noteq> JUndefined) ps))"

text \<open>
  The block marked "save history": the entry for the file gets a deep copy of the
  current data pushed on \<open>past\<close>, the oldest entry is dropped beyond \<open>MAX_HISTORY\<close>, and
  \<open>future\<close> is emptied.
\<close>

definition save_history :: "string \<Rightarrow> FileSource \<Rightarrow> (string \<rightharpoonup> FileHistory) \<Rightarrow> (string \<rightharpoonup> FileHistory)" where
  "save_history fid file hist =
     (let h = (case hist fid of None \<Rightarrow> \<lparr>past = [], future = []\<rparr> | Some h \<Rightarrow> h);
          currentEntry = \<lparr>entry_data = map json_clone (file_data file),
                          entry_keyOrder = keyOrder file\<rparr>;
          pushed = past h @ [currentEntry];
          kept = (if MAX_HISTORY < length pushed then tl pushed else pushed)
      in hist(fid \<mapsto> \<lparr>past = kept, future = []\<rparr>))"

subsection \<open>Filtering\<close>

definition allRules :: "FileState \<Rightarrow> FilterRule list" where
  "allRules st = concat (map rules (filterGroups st))"

definition hasFilters :: "FileState \<Rightarrow> bool" where
  "hasFilters st = (trim (searchQuery st) \<noteq> [] \<or> allRules st \<noteq> [])"

text \<open>
  \<open>checkRule(rec, rule)\<close>. The field is read as one property, \<open>rec[rule.field]\<close>, and
  \<open>null\<close> or \<open>undefined\<close> gives the empty string.
\<close>

definition checkRule :: "builtins \<Rightarrow> jsval \<Rightarrow> FilterRule \<Rightarrow> bool" where
  "checkRule b rec rule =
     (let v = get_prop rec (rule_field rule);
          fieldValue = js_String b (if v = JNull \<or> v = JUndefined then JStr [] else v)
      in case rule_operator rule of
           Contains \<Rightarrow> str_includes (toLowerCase b fieldValue) (toLowerCase b (rule_value rule))
         | Equals \<Rightarrow> fieldValue = rule_value rule
         | StartsWith \<Rightarrow> startsWith (toLowerCase b fieldValue) (toLowerCase b (rule_value rule))
         | EndsWith \<Rightarrow> endsWith (toLowerCase b fieldValue) (toLowerCase b (rule_value rule))
         | NotContains \<Rightarrow> \<not> str_includes (toLowerCase b fieldValue) (toLowerCase b (rule_value rule))
         | IsEmpty \<Rightarrow> fieldValue = [] \<or> trim fieldValue = []
         | IsNotEmpty \<Rightarrow> fieldValue \<noteq> [] \<and> trim fieldValue \<noteq> [])"

text \<open>
  The callback of \<open>data.forEach\<close> in \<open>recalculateFilteredData\<close>: whether the index of the
  record is pushed. The first line leaves out every record that is falsy or whose
  \<open>typeof\<close> is not \<open>object\<close>.
\<close>

definition record_matches :: "builtins \<Rightarrow> string \<Rightarrow> FilterGroup list \<Rightarrow> jsval \<Rightarrow> bool" where
  "record_matches b query groups record =
     (if \<not> is_container record then False
      else
        (let matchesSearch =
               (if trim query \<noteq> []
                then str_includes (toLowerCase b (jsonStringify b record)) (toLowerCase b query)
                else True)
         in if \<not> matchesSearch then False
            else if groups = [] then True
            else list_all (\<lambda>group. rules group = [] \<or> list_ex (checkRule b record) (rules group))
                   groups))"

fun match_loop :: "builtins \<Rightarrow> string \<Rightarrow> FilterGroup list \<Rightarrow> nat \<Rightarrow> jsval list \<Rightarrow> nat list \<Rightarrow> nat list" where
  "match_loop b query groups index [] matchedIndices = matchedIndices"
| "match_loop b query groups index (record # rest) matchedIndices =
     match_loop b query groups (index + 1) rest
       (if record_matches b query groups record then matchedIndices @ [index] else matchedIndices)"

definition recalculateFilteredData :: "builtins \<Rightarrow> FileState \<Rightarrow> FileState" where
  "recalculateFilteredData b st =
     (case active_file st of
        None \<Rightarrow> st\<lparr>filteredIndices := [], currentIndex := 0\<rparr>
      | Some activeFile \<Rightarrow>
          (let data = file_data activeFile in
           if \<not> hasFilters st
           then st\<lparr>filteredIndices := [],
                   currentIndex := min (currentIndex st) (int (length data) - 1)\<rparr>
           else st\<lparr>filteredIndices := match_loop b (searchQuery st) (filterGroups st) 0 data [],
                   currentIndex := 0\<rparr>))"

text \<open>\<open>arr[i]\<close> for an index\<close>

definition nth_or_undefined :: "jsval list \<Rightarrow> nat \<Rightarrow> jsval" where
  "nth_or_undefined xs i = (if i < length xs then xs ! i else JUndefined)"

text \<open>\<open>commitFilterToData()\<close>: the value returned and the state after it.\<close>

definition commitFilterToData :: "FileState \<Rightarrow> bool \<times> FileState" where
  "commitFilterToData st =
     (case active_file st of
        None \<Rightarrow> (False, st)
      | Some activeFile \<Rightarrow>
          if \<not> hasFilters st then (False, st)
          else
            (let fid = file_id activeFile;
                 filteredData = (if 0 < length (filteredIndices st)
                                 then map (nth_or_undefined (file_data activeFile)) (filteredIndices st)
                                 else file_data activeFile)
             in (True,
                 st\<lparr>history := (if fid \<noteq> [] then save_history fid activeFile (history st)
                                 else history st),
                    files := update_first fid (\<lambda>file. file\<lparr>file_data := map json_clone filteredData\<rparr>)
                               (files st),
                    searchQuery := [],
                    filterGroups := [],
                    filteredIndices := [],
                    currentIndex := 0\<rparr>)))"

subsection \<open>Nesting fields\<close>

text \<open>
  The body that the store's \<open>nestFields\<close> and the worker's \<open>nestFields\<close> case run on one
  record: it is \<open>nestFields\<close> above without the test at its head.
\<close>

definition nest_record :: "string list \<Rightarrow> string \<Rightarrow> props \<Rightarrow> props" where
  "nest_record sourceFields targetField record =
     (let existing = obj_get record targetField;
          targetObject = (case existing of JObj ps \<Rightarrow> ps | _ \<Rightarrow> []);
          st = foldl nest_step (targetObject, record) sourceFields
      in obj_set (snd st) targetField (JObj (fst st)))"

text \<open>\<open>Array.from(new Set(xs))\<close>: the first occurrence of each element, in order\<close>

definition dedupe :: "string list \<Rightarrow> string list" where
  "dedupe xs = rev (remdups (rev xs))"

definition cleanedSource :: "string list \<Rightarrow> string \<Rightarrow> string list" where
  "cleanedSource sourceFields targetField =
     filter (\<lambda>field. field \<noteq> trim targetField)
       (dedupe (filter (\<lambda>field. field \<noteq> []) (map trim sourceFields)))"

definition store_nestFields :: "string list \<Rightarrow> string \<Rightarrow> FileState \<Rightarrow> FileState" where
  "store_nestFields sourceFields targetField st =
     (let trimmedTarget = trim targetField;
          cleaned = cleanedSource sourceFields targetField
      in case active_file st of
           None \<Rightarrow> st
         | Some activeFile \<Rightarrow>
             if trimmedTarget = [] \<or> cleaned = [] then st
             else
               (let fid = file_id activeFile;
                    nest = (\<lambda>record. case record of
                                        JObj r \<Rightarrow> JObj (nest_record cleaned trimmedTarget r)
                                      | _ \<Rightarrow> record);
                    order = (\<lambda>ko. case ko of
                                     None \<Rightarrow> None
                                   | Some ks \<Rightarrow>
                                       if ks = [] then Some ks
                                       else (let nextOrder = filter (\<lambda>key. key \<notin> set cleaned) ks
                                             in Some (if trimmedTarget \<in> set nextOrder then nextOrder
                                                      else nextOrder @ [trimmedTarget])))
                in st\<lparr>history := (if fid \<noteq> [] then save_history fid activeFile (history st)
                                   else history st),
                      files := update_first fid
                                 (\<lambda>file. file\<lparr>file_data := map nest (file_data file),
                                              keyOrder := order (keyOrder file)\<rparr>)
                                 (files st)\<rparr>))"

text \<open>
  What the batch panel sends to the worker for \<open>nestFields\<close> (the \<open>nestFields\<close> case of
  its confirm handler): the action, or nothing when the handler returns early.
\<close>

definition panel_nestFields :: "string \<Rightarrow> string list \<Rightarrow> BatchAction option" where
  "panel_nestFields nestTargetField nestSelectedFields =
     (let targetField = trim nestTargetField;
          sourceFields = filter (\<lambda>field. field \<noteq> targetField) nestSelectedFields
      in if targetField = [] \<or> sourceFields = [] then None
         else Some (NestFields sourceFields targetField))"

section \<open>Instances of the parameters, for the examples\<close>

text \<open>
  A parser that knows one text, \<open>{"x":1}\<close>, and rejects every other.
\<close>

definition text_x1 :: string where
  "text_x1 = [CHR ''{'', dquote, CHR ''x'', dquote, CHR '':'', CHR ''1'', CHR ''}'']"

lift_definition demo_parser :: parser is
  "\<lambda>s. if s = text_x1 then Some (JObj [(''x'', JNum (Fin 1))]) else None"
  by (auto simp: text_x1_def split: if_splits)

text \<open>
  Conversions that are the engine's on the strings and numbers of the examples:
  \<open>Number\<close> reads an unsigned decimal integer, and the empty string as 0, and gives
  not-a-number for a string with any other character; \<open>String\<close> writes whole numbers;
  \<open>toLowerCase\<close> maps the ASCII capitals; \<open>JSON.stringify\<close> writes a value without
  white space.
\<close>

definition is_digit :: "char \<Rightarrow> bool" where
  "is_digit c = (c \<in> set ''0123456789'')"

definition digit_value :: "char \<Rightarrow> nat" where
  "digit_value c = of_char c - 48"

definition demo_numberOfString :: "string \<Rightarrow> jsnum" where
  "demo_numberOfString s =
     (let t = trim s in
      if list_all is_digit t then Fin (of_nat (foldl (\<lambda>n c. 10 * n + digit_value c) 0 t))
      else NaN)"

definition demo_stringOfNumber :: "jsnum \<Rightarrow> string" where
  "demo_stringOfNumber n =
     (case n of
        NaN \<Rightarrow> ''NaN''
      | PosInf \<Rightarrow> ''Infinity''
      | NegInf \<Rightarrow> ''-Infinity''
      | Fin r \<Rightarrow> if 0 \<le> r then string_of_nat (nat \<lfloor>r\<rfloor>) else ''-'' @ string_of_nat (nat \<lfloor>- r\<rfloor>))"

definition demo_toLowerCase :: "string \<Rightarrow> string" where
  "demo_toLowerCase s =
     map (\<lambda>c. case map_of (zip ''ABCDEFGHIJKLMNOPQRSTUVWXYZ'' ''abcdefghijklmnopqrstuvwxyz'') c of
                 Some l \<Rightarrow> l | None \<Rightarrow> c) s"

fun demo_stringify :: "jsval \<Rightarrow> string" where
  "demo_stringify JUndefined = ''null''"
| "demo_stringify JNull = ''null''"
| "demo_stringify (JBool t) = (if t then ''true'' else ''false'')"
| "demo_stringify (JNum n) = (case n of Fin r \<Rightarrow> demo_stringOfNumber n | _ \<Rightarrow> ''null'')"
| "demo_stringify (JStr s) = [dquote] @ escapeStringValue s @ [dquote]"
| "demo_stringify (JArr xs ex) = ''['' @ join '','' (map demo_stringify xs) @ '']''"
| "demo_stringify (JObj ps) =
     ''{'' @ join '','' (map (\<lambda>kv. [dquote] @ escapeStringValue (fst kv) @ [dquote] @ '':''
                                   @ demo_stringify (snd kv))
                          (filter (\<lambda>kv. snd kv \<noteq> JUndefined) ps)) @ ''}''"

definition demo_builtins :: builtins where
  "demo_builtins =
     \<lparr>numberOfString = demo_numberOfString,
      stringOfNumber = demo_stringOfNumber,
      toLowerCase = demo_toLowerCase,
      jsonStringify = demo_stringify\<rparr>"

text \<open>
  The function names of \<open>Object.prototype\<close>, and those of \<open>Array.prototype\<close> in the
  2023 edition of the language.
\<close>

definition demo_engine :: engine where
  "demo_engine =
     \<lparr>objectPrototypeNames =
        [''constructor'', ''hasOwnProperty'', ''isPrototypeOf'', ''propertyIsEnumerable'',
         ''toLocaleString'', ''toString'', ''valueOf'', ''__defineGetter__'',
         ''__defineSetter__'', ''__lookupGetter__'', ''__lookupSetter__''],
      arrayPrototypeNames =
        [''at'', ''concat'', ''constructor'', ''copyWithin'', ''entries'', ''every'', ''fill'',
         ''filter'', ''find'', ''findIndex'', ''findLast'', ''findLastIndex'', ''flat'',
         ''flatMap'', ''forEach'', ''includes'', ''indexOf'', ''join'', ''keys'',
         ''lastIndexOf'', ''map'', ''pop'', ''push'', ''reduce'', ''reduceRight'', ''reverse'',
         ''shift'', ''slice'', ''some'', ''sort'', ''splice'', ''toLocaleString'',
         ''toReversed'', ''toSorted'', ''toSpliced'', ''toString'', ''unshift'', ''values'',
         ''with'']\<rparr>"

section \<open>States for the examples\<close>

text \<open>One file whose only record holds \<open>x\<close> at \<open>a.b\<close>, and the rule \<open>a.b equals x\<close>.\<close>

definition nested_state :: FileState where
  "nested_state =
     \<lparr>files = [\<lparr>file_id = ''f1'',
                file_data = [JObj [(''a'', JObj [(''b'', JStr ''x'')])]],
                keyOrder = None\<rparr>],
      activeFileId = Some ''f1'',
      currentIndex = 0,
      history = Map.empty,
      searchQuery = [],
      filterGroups = [\<lparr>group_id = ''g1'',
                       rules = [\<lparr>rule_id = ''r1'', rule_field = ''a.b'',
                                 rule_operator = Equals, rule_value = ''x''\<rparr>]\<rparr>],
      filteredIndices = []\<rparr>"

text \<open>One file with one record, and a search query that the record does not contain.\<close>

definition unmatched_state :: FileState where
  "unmatched_state =
     \<lparr>files = [\<lparr>file_id = ''f1'',
                file_data = [JObj [(''a'', JNum (Fin 1))]],
                keyOrder = None\<rparr>],
      activeFileId = Some ''f1'',
      currentIndex = 0,
      history = Map.empty,
      searchQuery = ''zzz'',
      filterGroups = [],
      filteredIndices = []\<rparr>"

text \<open>
  One file whose records are the string \<open>abc\<close> and an object, the search query \<open>abc\<close>
  and the rule \<open>zzz isEmpty\<close>.
\<close>

definition string_file :: FileSource where
  "string_file =
     \<lparr>file_id = ''f1'',
      file_data = [JStr ''abc'', JObj [(''t'', JStr ''abc'')]],
      keyOrder = None\<rparr>"

definition empty_rule :: FilterRule where
  "empty_rule = \<lparr>rule_id = ''r1'', rule_field = ''zzz'', rule_operator = IsEmpty, rule_value = []\<rparr>"

definition string_state :: FileState where
  "string_state =
     \<lparr>files = [string_file],
      activeFileId = Some ''f1'',
      currentIndex = 0,
      history = Map.empty,
      searchQuery = ''abc'',
      filterGroups = [\<lparr>group_id = ''g1'', rules = [empty_rule]\<rparr>],
      filteredIndices = []\<rparr>"

text \<open>One file whose record has the fields \<open>a\<close> and \<open>t\<close>, \<open>t\<close> being an object.\<close>

definition nest_file :: FileSource where
  "nest_file =
     \<lparr>file_id = ''f1'',
      file_data = [JObj [(''a'', JNum (Fin 1)), (''t'', JObj [(''x'', JNum (Fin 2))])]],
      keyOrder = None\<rparr>"

definition nest_state :: FileState where
  "nest_state =
     \<lparr>files = [nest_file],
      activeFileId = Some ''f1'',
      currentIndex = 0,
      history = Map.empty,
      searchQuery = [],
      filterGroups = [],
      filteredIndices = []\<rparr>"

text \<open>
  What a record holds under key \<open>k\<close> inside the object stored at \<open>target\<close>
  (\<open>undefined\<close> when \<open>target\<close> holds no object).
\<close>

definition nested_under :: "props \<Rightarrow> string \<Rightarrow> string \<Rightarrow> jsval" where
  "nested_under r target k =
     (case obj_get r target of JObj targetObject \<Rightarrow> obj_get targetObject k | _ \<Rightarrow> JUndefined)"

section \<open>Escape then unescape\<close>

lemma replaceAll_Nil: "replaceAll c r [] = []"
  by (simp add: replaceAll_def)

lemma replaceAll_append: "replaceAll c r (xs @ ys) = replaceAll c r xs @ replaceAll c r ys"
  by (simp add: replaceAll_def)

lemma replaceAll_Cons:
  "replaceAll c r (x # xs) = (if x = c then r else [x]) @ replaceAll c r xs"
  by (simp add: replaceAll_def)

lemma escape_Nil: "escapeStringValue [] = []"
  by (simp add: escapeStringValue_def replaceAll_Nil)

lemma escape_Cons: "escapeStringValue (c # s) = esc_char c @ escapeStringValue s"
  by (simp add: escapeStringValue_def esc_char_def replaceAll_Cons replaceAll_append replaceAll_Nil)

lemma unescape_loop_escape:
  "unescape_loop (pre @ escapeStringValue s) (length pre) acc = acc @ s"
proof (induction s arbitrary: pre acc)
  case Nil
  show ?case
    by (subst unescape_loop.simps) (simp add: escape_Nil)
next
  case (Cons c s)
  let ?str = "pre @ esc_char c @ escapeStringValue s"
  have step: "unescape_loop ?str (length pre) acc
      = unescape_loop ?str (length pre + length (esc_char c)) (acc @ [c])"
    by (subst unescape_loop.simps) (simp add: esc_char_def nth_append Let_def)
  have "unescape_loop ((pre @ esc_char c) @ escapeStringValue s) (length (pre @ esc_char c)) (acc @ [c])
      = (acc @ [c]) @ s"
    by (rule Cons.IH)
  then show ?case
    using step by (simp add: escape_Cons)
qed

text \<open>
  C4. For every string, escaping and then unescaping gives the string back; this covers
  the strings that contain a double quote, a backslash, a newline, a tab or a carriage
  return.
\<close>

theorem unescape_escape_identity: "unescapeStringValue (escapeStringValue s) = s"
  using unescape_loop_escape [of "[]" s "[]"] by (simp add: unescapeStringValue_def)

section \<open>Set then get\<close>

lemma obj_get_obj_set: "obj_get (obj_set ps k v) k = v"
  by (induction ps) auto

lemma obj_get_obj_set_other: "k' \<noteq> k \<Longrightarrow> obj_get (obj_set ps k v) k' = obj_get ps k'"
  by (induction ps) auto

lemma map_of_own_set: "map_of (own_set ps k v) k = Some v"
  by (induction ps) auto

lemma own_set_twice: "own_set (own_set ps k v) k w = own_set ps k w"
  by (induction ps) auto

lemma get_step_arr_set: "get_step b e (RVal (arr_set b xs ex (part_index b h) v)) h = RVal v"
  by (auto simp: get_step_def arr_set_def arr_get_def map_of_own_set nth_append
           split: option.splits)

lemma get_step_obj_write:
  "k = part_key b h \<Longrightarrow> k \<noteq> ''__proto__'' \<or> k \<in> set (map fst ps)
     \<Longrightarrow> get_step b e (RVal (obj_write ps k v)) h = RVal v"
  by (auto simp: get_step_def obj_write_def obj_read_def map_of_own_set)

lemma getAtPath_Cons: "getAtPath b e t (h # rest) = getAtPath b e (get_step b e t h) rest"
  by (simp add: getAtPath_def)

lemma get_set_roundtrip:
  "\<not> runs_proto_setter b e target p
     \<Longrightarrow> getAtPath b e (RVal (setAtPath b e target p x)) p = RVal x"
proof (induction b e target p x rule: setAtPath.induct)
  case (1 b e target val)
  show ?case by (simp add: getAtPath_def)
next
  case (2 b e target head rest val)
  show ?case
  proof (cases "isArray target")
    case True
    then show ?thesis
      using "2.IH"(1) [OF True refl refl] "2.prems"
      by (simp add: getAtPath_Cons get_step_arr_set Let_def)
  next
    case False
    show ?thesis
    proof (cases "is_object target")
      case True
      let ?k = "part_key b head"
      have k: "?k \<noteq> ''__proto__'' \<or> ?k \<in> set (map fst (spread_props target))"
        using "2.prems" False True by (auto simp: Let_def)
      have r: "\<not> runs_proto_setter b e (obj_read e DefaultProto (spread_props target) ?k) rest"
        using "2.prems" False True by (auto simp: Let_def)
      show ?thesis
        using "2.IH"(2) [OF False True refl refl r] False True
        by (simp add: getAtPath_Cons get_step_obj_write [OF refl k] Let_def)
    next
      case nobj: False
      then show ?thesis
        using "2.IH"(3) [OF False nobj] "2.prems" False by simp
    qed
  qed
qed

lemma no_proto_segment:
  "\<forall>part \<in> set p. part_key b part \<noteq> ''__proto__'' \<Longrightarrow> \<not> runs_proto_setter b e target p"
proof (induction b e target p rule: runs_proto_setter.induct)
  case (1 b e target)
  show ?case by simp
next
  case (2 b e target head rest)
  then show ?case by (auto simp: Let_def)
qed

lemma set_through_string:
  "setAtPath b e (RVal (OObj pr (own_set ps ''a'' (OStr s)))) [PStr ''a'', PStr ''b''] x
     = OObj DefaultProto (own_set ps ''a'' (OObj DefaultProto [(''b'', x)]))"
proof -
  have "(''a'', OStr s) \<in> set (own_set ps ''a'' (OStr s))"
    using map_of_own_set [of ps "''a''" "OStr s"] by (rule map_of_SomeD)
  then have own: "''a'' \<in> set (map fst (own_set ps ''a'' (OStr s)))"
    by force
  have rd: "obj_read e DefaultProto (own_set ps ''a'' (OStr s)) ''a'' = RVal (OStr s)"
    by (simp add: obj_read_def map_of_own_set)
  have inner: "setAtPath b e (RVal (OStr s)) [PStr ''b''] x = OObj DefaultProto [(''b'', x)]"
    by (simp add: isArray_def is_object_def spread_props_def part_key_def obj_write_def Let_def)
  show ?thesis
    using own rd inner
    by (simp add: isArray_def is_object_def spread_props_def part_key_def obj_write_def Let_def
                  own_set_twice)
qed

text \<open>
  C3, as stated, fails at the key \<open>__proto__\<close>. On the empty object, setting 5 at
  \<open>["__proto__"]\<close> runs the inherited setter, which ignores a number: the copy comes
  back empty, and reading at \<open>["__proto__"]\<close> gives \<open>Object.prototype\<close>, not 5. Setting
  \<open>null\<close> there empties the prototype, and the read gives \<open>undefined\<close>, not \<open>null\<close>.
\<close>

theorem setAtPath_proto_counterexample:
  "setAtPath demo_builtins demo_engine (RVal (of_jsval (JObj []))) [PStr ''__proto__'']
     (of_jsval (JNum (Fin 5)))
     = OObj DefaultProto []
   \<and> getAtPath demo_builtins demo_engine
        (RVal (setAtPath demo_builtins demo_engine (RVal (of_jsval (JObj [])))
                 [PStr ''__proto__''] (of_jsval (JNum (Fin 5)))))
        [PStr ''__proto__'']
     = RObjectPrototype
   \<and> getAtPath demo_builtins demo_engine
        (RVal (setAtPath demo_builtins demo_engine (RVal (of_jsval (JObj [])))
                 [PStr ''__proto__''] (of_jsval (JNum (Fin 5)))))
        [PStr ''__proto__'']
     \<noteq> RVal (of_jsval (JNum (Fin 5)))
   \<and> getAtPath demo_builtins demo_engine
        (RVal (setAtPath demo_builtins demo_engine (RVal (of_jsval (JObj [])))
                 [PStr ''__proto__''] (of_jsval JNull)))
        [PStr ''__proto__'']
     = RVal OUndefined"
  by code_simp

text \<open>
  C3, amended. For every target, path \<open>p\<close> and value \<open>x\<close>, reading at \<open>p\<close> what was
  set at \<open>p\<close> gives \<open>x\<close>, provided the set never assigns to \<open>__proto__\<close> on an object
  that has no own property of that name; this is so, in particular, when no segment of
  the path is \<open>__proto__\<close>. When the path passes through a primitive the primitive is
  replaced: setting at \<open>["a","b"]\<close> in an object whose \<open>a\<close> is a string puts the object
  \<open>{b: x}\<close> under \<open>a\<close>.
\<close>

theorem get_after_set:
  "(\<not> runs_proto_setter b e target p
      \<longrightarrow> getAtPath b e (RVal (setAtPath b e target p x)) p = RVal x)
   \<and> ((\<forall>part \<in> set p. part_key b part \<noteq> ''__proto__'') \<longrightarrow> \<not> runs_proto_setter b e target p)
   \<and> setAtPath b e (RVal (OObj pr (own_set ps ''a'' (OStr s)))) [PStr ''a'', PStr ''b''] x
       = OObj DefaultProto (own_set ps ''a'' (OObj DefaultProto [(''b'', x)]))"
  using get_set_roundtrip [of b e target p x] no_proto_segment [of p b e target]
    set_through_string [of b e pr ps s x]
  by blast

text \<open>
  The object \<open>{a:"s"}\<close> with the path \<open>["a","b"]\<close>, where no segment is \<open>__proto__\<close>;
  and an object that has \<open>__proto__\<close> as an own property, where the assignment updates
  that property and the value is read back.
\<close>

theorem get_after_set_witness:
  "part_key demo_builtins (PStr ''a'') \<noteq> ''__proto__''
   \<and> part_key demo_builtins (PStr ''b'') \<noteq> ''__proto__''
   \<and> \<not> runs_proto_setter demo_builtins demo_engine
         (RVal (of_jsval (JObj [(''a'', JStr ''s'')]))) [PStr ''a'', PStr ''b'']
   \<and> setAtPath demo_builtins demo_engine (RVal (of_jsval (JObj [(''a'', JStr ''s'')])))
        [PStr ''a'', PStr ''b''] (ONum (Fin 1))
       = OObj DefaultProto [(''a'', OObj DefaultProto [(''b'', ONum (Fin 1))])]
   \<and> getAtPath demo_builtins demo_engine
        (RVal (setAtPath demo_builtins demo_engine (RVal (of_jsval (JObj [(''a'', JStr ''s'')])))
                 [PStr ''a'', PStr ''b''] (ONum (Fin 1))))
        [PStr ''a'', PStr ''b'']
       = RVal (ONum (Fin 1))
   \<and> \<not> runs_proto_setter demo_builtins demo_engine
         (RVal (of_jsval (JObj [(''__proto__'', JNum (Fin 1))]))) [PStr ''__proto__'']
   \<and> getAtPath demo_builtins demo_engine
        (RVal (setAtPath demo_builtins demo_engine
                 (RVal (of_jsval (JObj [(''__proto__'', JNum (Fin 1))])))
                 [PStr ''__proto__''] (ONum (Fin 5))))
        [PStr ''__proto__'']
       = RVal (ONum (Fin 5))"
proof -
  let ?t1 = "RVal (of_jsval (JObj [(''a'', JStr ''s'')]))"
  let ?t2 = "RVal (of_jsval (JObj [(''__proto__'', JNum (Fin 1))]))"
  have h1: "\<forall>part \<in> set [PStr ''a'', PStr ''b'']. part_key demo_builtins part \<noteq> ''__proto__''"
    by (simp add: part_key_def)
  have h2: "\<not> runs_proto_setter demo_builtins demo_engine ?t2 [PStr ''__proto__'']"
    by code_simp
  have s1: "setAtPath demo_builtins demo_engine ?t1 [PStr ''a'', PStr ''b''] (ONum (Fin 1))
              = OObj DefaultProto [(''a'', OObj DefaultProto [(''b'', ONum (Fin 1))])]"
    by code_simp
  note a = get_after_set [of demo_builtins demo_engine ?t1 "[PStr ''a'', PStr ''b'']" "ONum (Fin 1)"]
  note b = get_after_set [of demo_builtins demo_engine ?t2 "[PStr ''__proto__'']" "ONum (Fin 5)"]
  have r1: "\<not> runs_proto_setter demo_builtins demo_engine ?t1 [PStr ''a'', PStr ''b'']"
    using a h1 by blast
  have g1: "getAtPath demo_builtins demo_engine
              (RVal (setAtPath demo_builtins demo_engine ?t1 [PStr ''a'', PStr ''b''] (ONum (Fin 1))))
              [PStr ''a'', PStr ''b''] = RVal (ONum (Fin 1))"
    using a r1 by blast
  have g2: "getAtPath demo_builtins demo_engine
              (RVal (setAtPath demo_builtins demo_engine ?t2 [PStr ''__proto__''] (ONum (Fin 5))))
              [PStr ''__proto__''] = RVal (ONum (Fin 5))"
    using b h2 by blast
  have k: "part_key demo_builtins (PStr ''a'') \<noteq> ''__proto__''
           \<and> part_key demo_builtins (PStr ''b'') \<noteq> ''__proto__''"
    by (simp add: part_key_def)
  show ?thesis using k h2 s1 r1 g1 g2 by blast
qed

section \<open>Flattening an array of label and value objects\<close>

text \<open>
  C1. The scenario of the specification run on the code: \<open>flattenStrip\<close> with target key
  \<open>tags\<close>, \<open>useSmartEAV\<close> and \<open>keepPrefix\<close>, on the record
  \<open>{tags:[{label:"Title",value:"Hello"},{label:"Year",value:2024}]}\<close>. The prefix handed to
  each element of the array already ends in the element's index, so the keys are
  \<open>tags.0.Title\<close> and \<open>tags.1.Year\<close>: the index is not omitted.
\<close>

theorem flattenStrip_eav_scenario:
  "applyBatch b p
     [JObj [(''tags'', JArr [JObj [(''label'', JStr ''Title''), (''value'', JStr ''Hello'')],
                             JObj [(''label'', JStr ''Year''), (''value'', JNum (Fin 2024))]] [])]]
     (FlattenStrip None None None (Some [''tags'']) (Some True) (Some True))
   = ([JObj [(''tags.0.Title'', JStr ''Hello''), (''tags.1.Year'', JNum (Fin 2024))]], [])"
  by code_simp

section \<open>The batch is a map over the records\<close>

lemma applyItem_fst_ws: "fst (applyItem b p action item ws) = fst (applyItem b p action item [])"
  by (cases item; cases action)
     (auto simp: applyItem_def typeConvert_def Let_def split: convTarget.splits prod.splits)

lemma batch_fold:
  "fst (foldl (batch_step b p action) (acc, ws) data)
     = acc @ map (\<lambda>item. fst (applyItem b p action item [])) data"
proof (induction data arbitrary: acc ws)
  case Nil
  show ?case by simp
next
  case (Cons item data)
  obtain r ws' where r: "applyItem b p action item ws = (r, ws')"
    by (cases "applyItem b p action item ws")
  then have "r = fst (applyItem b p action item [])"
    using applyItem_fst_ws [of b p action item ws] by simp
  then show ?case
    using Cons.IH [of "acc @ [r]" ws'] r by (simp add: batch_step_def)
qed

lemma applyBatch_map:
  "fst (applyBatch b p data action) = map (\<lambda>item. fst (applyItem b p action item [])) data"
  using batch_fold [of b p action "[]" "[]" data] by (simp add: applyBatch_def)



section \<open>Conversion to a number\<close>



section \<open>Parsing twice\<close>

lemma keys_obj_set:
  "map fst (obj_set ps k v) = (if k \<in> fst ` set ps then map fst ps else map fst ps @ [k])"
  by (induction ps) force+

lemma distinct_obj_set: "distinct (map fst ps) \<Longrightarrow> distinct (map fst (obj_set ps k v))"
  by (simp add: keys_obj_set)

lemma values_obj_set: "snd ` set (obj_set ps k v) \<subseteq> insert v (snd ` set ps)"
proof (induction ps)
  case Nil
  show ?case by simp
next
  case (Cons kv ps)
  then show ?case by (cases kv) (auto split: if_splits)
qed

lemma obj_set_new: "k \<notin> set (map fst ps) \<Longrightarrow> obj_set ps k v = ps @ [(k, v)]"
  by (induction ps) auto

lemma fold_set_distinct:
  "distinct (map fst acc)
     \<Longrightarrow> distinct (map fst (foldl (\<lambda>r kv. obj_set r (fst kv) (f (snd kv))) acc ps))"
  by (induction ps arbitrary: acc) (auto simp: distinct_obj_set)

lemma fold_set_values:
  "snd ` set (foldl (\<lambda>r kv. obj_set r (fst kv) (f (snd kv))) acc ps)
     \<subseteq> snd ` set acc \<union> f ` snd ` set ps"
proof (induction ps arbitrary: acc)
  case Nil
  show ?case by simp
next
  case (Cons kv ps)
  have "snd ` set (foldl (\<lambda>r kv. obj_set r (fst kv) (f (snd kv)))
                     (obj_set acc (fst kv) (f (snd kv))) ps)
        \<subseteq> snd ` set (obj_set acc (fst kv) (f (snd kv))) \<union> f ` snd ` set ps"
    by (rule Cons.IH)
  also have "\<dots> \<subseteq> insert (f (snd kv)) (snd ` set acc) \<union> f ` snd ` set ps"
    using values_obj_set [of acc "fst kv" "f (snd kv)"] by blast
  finally show ?case by auto
qed

lemma fold_set_fixed:
  "distinct (map fst acc @ map fst r) \<Longrightarrow> (\<forall>kv \<in> set r. f (snd kv) = snd kv)
     \<Longrightarrow> foldl (\<lambda>res kv. obj_set res (fst kv) (f (snd kv))) acc r = acc @ r"
proof (induction r arbitrary: acc)
  case Nil
  show ?case by simp
next
  case (Cons kv r)
  have new: "fst kv \<notin> set (map fst acc)" using Cons.prems(1) by auto
  have step: "obj_set acc (fst kv) (f (snd kv)) = acc @ [kv]"
    using obj_set_new [OF new, of "f (snd kv)"] Cons.prems(2) by simp
  have "distinct (map fst (acc @ [kv]) @ map fst r)" using Cons.prems(1) by auto
  then have "foldl (\<lambda>res kv. obj_set res (fst kv) (f (snd kv))) (acc @ [kv]) r = (acc @ [kv]) @ r"
    using Cons.prems(2) by (intro Cons.IH) auto
  then show ?case using step by simp
qed

lemma smartParse_twice: "smartParseValue p (smartParseValue p v) = smartParseValue p v"
proof (induction p v rule: smartParseValue.induct)
  case (1 p s)
  then show ?case by (auto simp: Let_def split: option.splits)
next
  case (2 p xs ex)
  then show ?case by simp
next
  case (3 p ps)
  let ?f = "smartParseValue p"
  let ?r = "foldl (\<lambda>result kv. obj_set result (fst kv) (?f (snd kv))) [] ps"
  have d: "distinct (map fst [] @ map fst ?r)"
    using fold_set_distinct [of "[]" ?f ps] by simp
  have "snd ` set ?r \<subseteq> ?f ` snd ` set ps"
    using fold_set_values [of ?f "[]" ps] by simp
  then have fx: "\<forall>kv \<in> set ?r. ?f (snd kv) = snd kv"
    using "3.IH" by fastforce
  have "foldl (\<lambda>result kv. obj_set result (fst kv) (?f (snd kv))) [] ?r = [] @ ?r"
    using d fx by (rule fold_set_fixed)
  then show ?case by simp
qed simp_all

text \<open>The same for the operation: first on the loop over the target keys.\<close>

lemma has_key_obj_set: "has_key (obj_set ps k v) k' = (k' = k \<or> has_key ps k')"
  by (auto simp: has_key_def keys_obj_set)

lemma obj_set_same: "has_key ps k \<Longrightarrow> obj_set ps k (obj_get ps k) = ps"
  by (induction ps) (force simp: has_key_def)+

lemma parse_key_absent: "\<not> has_key R k \<Longrightarrow> parse_key p R k = R"
  by (simp add: parse_key_def)

lemma parse_key_present:
  "has_key R k \<Longrightarrow> parse_key p R k = obj_set R k (smartParseValue p (obj_get R k))"
  by (simp add: parse_key_def)

lemma parse_keys_fixed:
  "\<forall>k \<in> set keys. has_key (foldl (parse_key p) r keys) k
      \<longrightarrow> smartParseValue p (obj_get (foldl (parse_key p) r keys) k)
          = obj_get (foldl (parse_key p) r keys) k"
proof (induction keys rule: rev_induct)
  case Nil
  show ?case by simp
next
  case (snoc k keys)
  let ?R = "foldl (parse_key p) r keys"
  show ?case
  proof (cases "has_key ?R k")
    case False
    then have "foldl (parse_key p) r (keys @ [k]) = ?R"
      by (simp add: parse_key_absent)
    then show ?thesis using snoc False by auto
  next
    case True
    then have R': "foldl (parse_key p) r (keys @ [k])
                     = obj_set ?R k (smartParseValue p (obj_get ?R k))"
      by (simp add: parse_key_present)
    show ?thesis
      unfolding R'
    proof
      fix k' assume k': "k' \<in> set (keys @ [k])"
      show "has_key (obj_set ?R k (smartParseValue p (obj_get ?R k))) k'
            \<longrightarrow> smartParseValue p (obj_get (obj_set ?R k (smartParseValue p (obj_get ?R k))) k')
                = obj_get (obj_set ?R k (smartParseValue p (obj_get ?R k))) k'"
      proof (cases "k' = k")
        case True
        then show ?thesis by (simp add: obj_get_obj_set smartParse_twice)
      next
        case False
        then have "k' \<in> set keys" using k' by simp
        then show ?thesis
          using snoc False by (simp add: obj_get_obj_set_other has_key_obj_set)
      qed
    qed
  qed
qed

lemma parse_keys_again:
  "(\<forall>k \<in> set keys. has_key R k \<longrightarrow> smartParseValue p (obj_get R k) = obj_get R k)
     \<Longrightarrow> foldl (parse_key p) R keys = R"
proof (induction keys)
  case Nil
  show ?case by simp
next
  case (Cons k keys)
  have "parse_key p R k = R"
  proof (cases "has_key R k")
    case True
    then show ?thesis using Cons.prems by (simp add: parse_key_present obj_set_same)
  next
    case False
    then show ?thesis by (rule parse_key_absent)
  qed
  then show ?case using Cons by simp
qed

lemma parseJSON_again:
  "\<exists>r'. parseJSON p key tks r = JObj r' \<and> parseJSON p key tks r' = JObj r'"
proof (cases "target_keys key tks = []")
  case True
  have "smartParseValue p (smartParseValue p (JObj r)) = smartParseValue p (JObj r)"
    by (rule smartParse_twice)
  then show ?thesis using True by (simp add: parseJSON_def)
next
  case False
  let ?R = "foldl (parse_key p) r (target_keys key tks)"
  have "foldl (parse_key p) ?R (target_keys key tks) = ?R"
    by (rule parse_keys_again) (rule parse_keys_fixed)
  then show ?thesis
    using False by (simp add: parseJSON_def)
qed

lemma batch_parse_twice:
  "fst (applyBatch b p (fst (applyBatch b p data (ParseJSON key tks))) (ParseJSON key tks))
     = fst (applyBatch b p data (ParseJSON key tks))"
proof -
  have "\<And>item. fst (applyItem b p (ParseJSON key tks)
                       (fst (applyItem b p (ParseJSON key tks) item [])) [])
              = fst (applyItem b p (ParseJSON key tks) item [])"
  proof -
    fix item
    show "fst (applyItem b p (ParseJSON key tks)
                 (fst (applyItem b p (ParseJSON key tks) item [])) [])
              = fst (applyItem b p (ParseJSON key tks) item [])"
    proof (cases item)
      case (JObj r)
      obtain r' where "parseJSON p key tks r = JObj r'" "parseJSON p key tks r' = JObj r'"
        using parseJSON_again by blast
      then show ?thesis using JObj by (simp add: applyItem_def)
    qed (simp_all add: applyItem_def)
  qed
  then show ?thesis by (simp add: applyBatch_map)
qed

text \<open>
  C5. The smart recursive parse is idempotent: for every value, and whatever the parser
  accepts, parsing the result again changes nothing. So is the \<open>parseJSON\<close> operation on
  a dataset, with or without target keys.
\<close>

theorem smartParse_idempotent:
  "smartParseValue p (smartParseValue p v) = smartParseValue p v
   \<and> fst (applyBatch b p (fst (applyBatch b p data (ParseJSON key tks))) (ParseJSON key tks))
       = fst (applyBatch b p data (ParseJSON key tks))"
  by (simp add: smartParse_twice batch_parse_twice)

text \<open>
  The scenario of the specification for the parse, with the parser that knows the text:
  the record \<open>{info:"{\"x\":1}"}\<close> becomes \<open>{info:{x:1}}\<close>, and parsing that again gives
  the same.
\<close>

theorem smartParse_idempotent_witness:
  "smartParseValue demo_parser (JObj [(''info'', JStr text_x1)])
     = JObj [(''info'', JObj [(''x'', JNum (Fin 1))])]
   \<and> smartParseValue demo_parser (smartParseValue demo_parser (JObj [(''info'', JStr text_x1)]))
     = JObj [(''info'', JObj [(''x'', JNum (Fin 1))])]
   \<and> fst (applyBatch demo_builtins demo_parser [JObj [(''info'', JStr text_x1)]]
             (ParseJSON None None))
     = [JObj [(''info'', JObj [(''x'', JNum (Fin 1))])]]
   \<and> fst (applyBatch demo_builtins demo_parser
             (fst (applyBatch demo_builtins demo_parser [JObj [(''info'', JStr text_x1)]]
                     (ParseJSON None None)))
             (ParseJSON None None))
     = [JObj [(''info'', JObj [(''x'', JNum (Fin 1))])]]"
proof -
  have v: "smartParseValue demo_parser (JObj [(''info'', JStr text_x1)])
             = JObj [(''info'', JObj [(''x'', JNum (Fin 1))])]"
    by (simp add: demo_parser.rep_eq text_x1_def trim_def is_space_def startsWith_def
                  endsWith_def is_container_def)
  have w: "fst (applyBatch demo_builtins demo_parser [JObj [(''info'', JStr text_x1)]]
                  (ParseJSON None None))
             = [JObj [(''info'', JObj [(''x'', JNum (Fin 1))])]]"
    using v
    by (simp add: applyBatch_def batch_step_def applyItem_def parseJSON_def target_keys_def)
  show ?thesis
    using smartParse_idempotent [of demo_parser "JObj [(''info'', JStr text_x1)]" demo_builtins
        "[JObj [(''info'', JStr text_x1)]]" None None] v w
    by simp
qed

section \<open>Rules on a nested field\<close>

text \<open>
  C2. A rule whose field is \<open>a.b\<close> on the record \<open>{a:{b:"x"}}\<close>: the dot path leads to
  \<open>x\<close>, but \<open>checkRule\<close> reads the one property named \<open>a.b\<close>, finds nothing, and the
  rule \<open>a.b equals x\<close> fails; the record is not matched.
\<close>

theorem checkRule_dotted_field:
  "getValueByPath (JObj [(''a'', JObj [(''b'', JStr ''x'')])]) ''a.b'' = JStr ''x''
   \<and> \<not> checkRule b (JObj [(''a'', JObj [(''b'', JStr ''x'')])])
          \<lparr>rule_id = ''r1'', rule_field = ''a.b'', rule_operator = Equals, rule_value = ''x''\<rparr>
   \<and> filteredIndices (recalculateFilteredData b nested_state) = []"
  by code_simp

section \<open>Committing a filter\<close>

lemma find_update_first:
  "(\<And>f. file_id (g f) = file_id f)
    \<Longrightarrow> find (\<lambda>f. file_id f = fid) (update_first fid g fs)
        = map_option g (find (\<lambda>f. file_id f = fid) fs)"
  by (induction fs) auto

lemma active_file_id:
  "active_file st = Some f \<Longrightarrow> activeFileId st = Some (file_id f)"
  by (auto simp: active_file_def find_Some_iff split: option.splits)

text \<open>
  With an active file, a filter and at least one matched index, the commit leaves the
  deep copies of the matched records, in the order of the index list, and clears the
  filter.
\<close>

lemma commit_keeps_matched:
  assumes "active_file st = Some f" and "hasFilters st" and "filteredIndices st \<noteq> []"
  shows "fst (commitFilterToData st)
         \<and> map_option file_data (active_file (snd (commitFilterToData st)))
             = Some (map json_clone (map (nth_or_undefined (file_data f)) (filteredIndices st)))
         \<and> searchQuery (snd (commitFilterToData st)) = []
         \<and> filterGroups (snd (commitFilterToData st)) = []
         \<and> filteredIndices (snd (commitFilterToData st)) = []"
proof -
  have a: "activeFileId st = Some (file_id f)" using assms(1) by (rule active_file_id)
  then have "find (\<lambda>g. file_id g = file_id f) (files st) = Some f"
    using assms(1) by (simp add: active_file_def)
  then show ?thesis
    using assms a
    by (simp add: commitFilterToData_def Let_def active_file_def find_update_first)
qed

text \<open>
  C6. The commit run on a state whose filter matches no record: the search query \<open>zzz\<close>
  gives the empty index list, the commit succeeds and clears the filter, and the
  dataset still holds its record; it does not become empty.
\<close>

theorem commit_with_no_match:
  "filteredIndices (recalculateFilteredData demo_builtins unmatched_state) = []
   \<and> fst (commitFilterToData (recalculateFilteredData demo_builtins unmatched_state))
   \<and> map file_data
        (files (snd (commitFilterToData (recalculateFilteredData demo_builtins unmatched_state))))
       = [[JObj [(''a'', JNum (Fin 1))]]]
   \<and> searchQuery (snd (commitFilterToData (recalculateFilteredData demo_builtins unmatched_state)))
       = []
   \<and> filterGroups (snd (commitFilterToData (recalculateFilteredData demo_builtins unmatched_state)))
       = []"
  by code_simp

section \<open>Records that are not objects\<close>

lemma match_loop_set:
  "set (match_loop b q gs k data acc)
     = set acc \<union> {k + j | j. j < length data \<and> record_matches b q gs (data ! j)}"
proof (induction data arbitrary: k acc)
  case Nil
  show ?case by simp
next
  case (Cons r rest)
  have "{k + j | j. j < length (r # rest) \<and> record_matches b q gs ((r # rest) ! j)}
      = (if record_matches b q gs r then {k} else {})
        \<union> {Suc k + j | j. j < length rest \<and> record_matches b q gs (rest ! j)}"
    (is "?L = ?R")
  proof
    show "?L \<subseteq> ?R"
    proof
      fix x assume "x \<in> ?L"
      then obtain j where j: "x = k + j" "j < length (r # rest)"
        "record_matches b q gs ((r # rest) ! j)" by blast
      show "x \<in> ?R"
      proof (cases j)
        case 0
        then show ?thesis using j by simp
      next
        case (Suc j')
        then have "x = Suc k + j'" "j' < length rest" "record_matches b q gs (rest ! j')"
          using j by simp_all
        then show ?thesis by blast
      qed
    qed
  next
    show "?R \<subseteq> ?L"
    proof
      fix x assume "x \<in> ?R"
      then consider "record_matches b q gs r" "x = k"
        | j where "x = Suc k + j" "j < length rest" "record_matches b q gs (rest ! j)"
        by (auto split: if_splits)
      then show "x \<in> ?L"
      proof cases
        case 1
        then have "x = k + 0 \<and> 0 < length (r # rest) \<and> record_matches b q gs ((r # rest) ! 0)"
          by simp
        then show ?thesis by blast
      next
        case 2
        then have "x = k + Suc j \<and> Suc j < length (r # rest)
                   \<and> record_matches b q gs ((r # rest) ! Suc j)"
          by simp
        then show ?thesis by blast
      qed
    qed
  qed
  then show ?case using Cons.IH [of "k + 1"] by auto
qed

text \<open>
  C10. When a filter is active, the index of a record that is neither an object nor an
  array (\<open>null\<close>, a number, a string, a boolean, \<open>undefined\<close>) is never in the matched
  index list, whatever the rules and the search query are.
\<close>

theorem non_object_never_matched:
  assumes "hasFilters st" and "active_file st = Some f" and "i < length (file_data f)"
    and "\<not> is_container (file_data f ! i)"
  shows "i \<notin> set (filteredIndices (recalculateFilteredData b st))"
proof -
  have "\<not> record_matches b (searchQuery st) (filterGroups st) (file_data f ! i)"
    using assms(4) by (simp add: record_matches_def)
  then show ?thesis
    using assms(1-3) by (auto simp: recalculateFilteredData_def match_loop_set)
qed

text \<open>
  The string record \<open>abc\<close> satisfies the rule \<open>zzz isEmpty\<close> and its serialized form
  contains the query \<open>abc\<close>; it is left out all the same, and the object after it is
  matched.
\<close>

theorem non_object_never_matched_witness:
  "hasFilters string_state
   \<and> active_file string_state = Some string_file
   \<and> 0 < length (file_data string_file)
   \<and> \<not> is_container (file_data string_file ! 0)
   \<and> checkRule demo_builtins (file_data string_file ! 0) empty_rule
   \<and> str_includes (toLowerCase demo_builtins (jsonStringify demo_builtins (file_data string_file ! 0)))
        (toLowerCase demo_builtins (searchQuery string_state))
   \<and> 0 \<notin> set (filteredIndices (recalculateFilteredData demo_builtins string_state))
   \<and> filteredIndices (recalculateFilteredData demo_builtins string_state) = [1]"
proof -
  have h1: "hasFilters string_state" by code_simp
  have h2: "active_file string_state = Some string_file" by code_simp
  have h3: "0 < length (file_data string_file)" by code_simp
  have h4: "\<not> is_container (file_data string_file ! 0)" by code_simp
  have c1: "checkRule demo_builtins (file_data string_file ! 0) empty_rule" by code_simp
  have c2: "str_includes
              (toLowerCase demo_builtins (jsonStringify demo_builtins (file_data string_file ! 0)))
              (toLowerCase demo_builtins (searchQuery string_state))"
    by code_simp
  have c3: "filteredIndices (recalculateFilteredData demo_builtins string_state) = [1]"
    by code_simp
  show ?thesis
    using non_object_never_matched [OF h1 h2 h3 h4, of demo_builtins] h1 h2 h3 h4 c1 c2 c3
    by blast
qed

section \<open>Nesting fields under a target\<close>

lemma nest_fold_other:
  "k \<notin> set src \<Longrightarrow> obj_get (fst (foldl nest_step (tobj, nxt) src)) k = obj_get tobj k"
  by (induction src arbitrary: tobj nxt) (auto simp: nest_step_def obj_get_obj_set_other)

lemma nest_record_target:
  "tgt \<notin> set src \<Longrightarrow> nested_under (nest_record src tgt r) tgt tgt = nested_under r tgt tgt"
  by (auto simp: nested_under_def nest_record_def Let_def obj_get_obj_set nest_fold_other
           split: jsval.splits)

lemma nestFields_nest_record:
  "tgt \<noteq> [] \<Longrightarrow> src \<noteq> [] \<Longrightarrow> nestFields src tgt r = nest_record src tgt r"
  by (simp add: nestFields_def nest_record_def)

lemma cleaned_no_target: "trim tgt \<notin> set (cleanedSource src tgt)"
  by (simp add: cleanedSource_def)

lemma store_nest_data:
  assumes "active_file st = Some f" and "trim tgt \<noteq> []" and "cleanedSource src tgt \<noteq> []"
  shows "\<exists>f'. active_file (store_nestFields src tgt st) = Some f'
          \<and> file_data f'
              = map (\<lambda>v. case v of
                            JObj r \<Rightarrow> JObj (nest_record (cleanedSource src tgt) (trim tgt) r)
                          | _ \<Rightarrow> v)
                  (file_data f)"
proof -
  have a: "activeFileId st = Some (file_id f)" using assms(1) by (rule active_file_id)
  then have "find (\<lambda>g. file_id g = file_id f) (files st) = Some f"
    using assms(1) by (simp add: active_file_def)
  then show ?thesis
    using assms a
    by (simp add: store_nestFields_def Let_def active_file_def find_update_first)
qed

lemma store_nest_noop:
  "trim tgt = [] \<or> cleanedSource src tgt = [] \<Longrightarrow> store_nestFields src tgt st = st"
  by (auto simp: store_nestFields_def Let_def split: option.splits)

lemma worker_nest_noop:
  assumes "tgt = [] \<or> src = []"
  shows "applyBatch b p data (NestFields src tgt) = (data, [])"
proof -
  have item: "\<And>item ws. applyItem b p (NestFields src tgt) item ws = (item, ws)"
    using assms by (auto simp: applyItem_def nestFields_def split: jsval.splits)
  have "\<And>acc ws. foldl (batch_step b p (NestFields src tgt)) (acc, ws) data = (acc @ data, ws)"
    by (induction data) (auto simp: batch_step_def item)
  then show ?thesis by (simp add: applyBatch_def)
qed

lemma panel_action:
  "panel_nestFields tgt sel = Some action
   \<Longrightarrow> \<exists>src'. action = NestFields src' (trim tgt) \<and> trim tgt \<notin> set src'
             \<and> trim tgt \<noteq> [] \<and> src' \<noteq> []"
  by (auto simp: panel_nestFields_def Let_def split: if_splits)

text \<open>
  C8, as stated, fails on the worker's \<open>nestFields\<close> case taken alone: it excludes
  nothing. With the target \<open>t\<close> among the source fields, the old value of \<open>t\<close> ends up
  under \<open>t\<close> inside the new object at \<open>t\<close>; and a target of one space, which is blank,
  is nested under as it is.
\<close>

theorem worker_nestFields_self_nesting:
  "applyBatch demo_builtins demo_parser [JObj [(''t'', JStr ''x'')]] (NestFields [''t''] ''t'')
     = ([JObj [(''t'', JObj [(''t'', JStr ''x'')])]], [])
   \<and> nested_under [(''t'', JStr ''x'')] ''t'' ''t'' = JUndefined
   \<and> nested_under [(''t'', JObj [(''t'', JStr ''x'')])] ''t'' ''t'' = JStr ''x''
   \<and> applyBatch demo_builtins demo_parser [JObj [(''a'', JStr ''x'')]] (NestFields [''a''] '' '')
     = ([JObj [('' '', JObj [(''a'', JStr ''x'')])]], [])"
  by code_simp

text \<open>
  C8, amended. The store's \<open>nestFields\<close> trims the names, drops the source fields
  equal to the trimmed target and nests the rest: in every record that is a plain
  object, what the object at the target holds under the target's own name is what it
  held before. The store's operation changes nothing when the trimmed target is empty or
  no source field is left. The batch panel drops the source fields equal to the trimmed
  target before it sends the action, so the same holds for every action it sends, and it
  sends none when the trimmed target is empty or no source field is left. The worker's
  case itself returns the dataset unchanged when the target is the empty string or the
  source list is empty.
\<close>

theorem nestFields_exclusion:
  "(active_file st = Some f \<and> trim tgt \<noteq> [] \<and> cleanedSource src tgt \<noteq> [] \<longrightarrow>
      trim tgt \<notin> set (cleanedSource src tgt)
      \<and> (\<exists>f'. active_file (store_nestFields src tgt st) = Some f'
            \<and> length (file_data f') = length (file_data f)
            \<and> (\<forall>i < length (file_data f). \<forall>r. file_data f ! i = JObj r \<longrightarrow>
                  (\<exists>r'. file_data f' ! i = JObj r'
                        \<and> nested_under r' (trim tgt) (trim tgt)
                            = nested_under r (trim tgt) (trim tgt)))))
   \<and> (trim tgt = [] \<or> cleanedSource src tgt = [] \<longrightarrow> store_nestFields src tgt st = st)
   \<and> (panel_nestFields tgt sel = Some action \<longrightarrow>
        (\<exists>src'. action = NestFields src' (trim tgt) \<and> trim tgt \<notin> set src')
        \<and> (\<forall>r. \<exists>r'. fst (applyItem b p action (JObj r) ws) = JObj r'
                  \<and> nested_under r' (trim tgt) (trim tgt) = nested_under r (trim tgt) (trim tgt)))
   \<and> (trim tgt = [] \<or> filter (\<lambda>field. field \<noteq> trim tgt) sel = [] \<longrightarrow>
        panel_nestFields tgt sel = None)
   \<and> (tgt2 = [] \<or> src2 = [] \<longrightarrow> applyBatch b p data (NestFields src2 tgt2) = (data, []))"
proof (intro conjI impI)
  assume h: "active_file st = Some f \<and> trim tgt \<noteq> [] \<and> cleanedSource src tgt \<noteq> []"
  show "trim tgt \<notin> set (cleanedSource src tgt)" by (rule cleaned_no_target)
  obtain f' where f': "active_file (store_nestFields src tgt st) = Some f'"
    "file_data f'
       = map (\<lambda>v. case v of
                     JObj r \<Rightarrow> JObj (nest_record (cleanedSource src tgt) (trim tgt) r)
                   | _ \<Rightarrow> v)
           (file_data f)"
    using store_nest_data [of st f tgt src] h by blast
  have nt: "\<And>r. nested_under (nest_record (cleanedSource src tgt) (trim tgt) r) (trim tgt) (trim tgt)
                = nested_under r (trim tgt) (trim tgt)"
    by (rule nest_record_target) (rule cleaned_no_target)
  have "\<forall>i < length (file_data f). \<forall>r. file_data f ! i = JObj r \<longrightarrow>
          (\<exists>r'. file_data f' ! i = JObj r'
                \<and> nested_under r' (trim tgt) (trim tgt) = nested_under r (trim tgt) (trim tgt))"
    using f'(2) nt by simp
  then show "\<exists>f'. active_file (store_nestFields src tgt st) = Some f'
            \<and> length (file_data f') = length (file_data f)
            \<and> (\<forall>i < length (file_data f). \<forall>r. file_data f ! i = JObj r \<longrightarrow>
                  (\<exists>r'. file_data f' ! i = JObj r'
                        \<and> nested_under r' (trim tgt) (trim tgt)
                            = nested_under r (trim tgt) (trim tgt)))"
    using f' by auto
next
  assume "trim tgt = [] \<or> cleanedSource src tgt = []"
  then show "store_nestFields src tgt st = st" by (rule store_nest_noop)
next
  assume a: "panel_nestFields tgt sel = Some action"
  then obtain src' where s: "action = NestFields src' (trim tgt)" "trim tgt \<notin> set src'"
    "trim tgt \<noteq> []" "src' \<noteq> []"
    using panel_action by blast
  show "\<exists>src'. action = NestFields src' (trim tgt) \<and> trim tgt \<notin> set src'"
    using s by blast
  show "\<forall>r. \<exists>r'. fst (applyItem b p action (JObj r) ws) = JObj r'
          \<and> nested_under r' (trim tgt) (trim tgt) = nested_under r (trim tgt) (trim tgt)"
    using s by (simp add: applyItem_def nestFields_nest_record nest_record_target)
next
  assume "trim tgt = [] \<or> filter (\<lambda>field. field \<noteq> trim tgt) sel = []"
  then show "panel_nestFields tgt sel = None"
    by (auto simp: panel_nestFields_def Let_def)
next
  assume "tgt2 = [] \<or> src2 = []"
  then show "applyBatch b p data (NestFields src2 tgt2) = (data, [])"
    by (rule worker_nest_noop)
qed

text \<open>
  The store's operation asked to nest \<open>a\<close> and \<open>t\<close> under \<open>t\<close>: \<open>t\<close> is dropped from the
  sources and only \<open>a\<close> moves. The panel sends the action without \<open>t\<close> among the sources.
\<close>

theorem nestFields_exclusion_witness:
  "active_file nest_state = Some nest_file
   \<and> trim '' t '' = ''t''
   \<and> cleanedSource [''a'', ''t'', ''a ''] '' t '' = [''a'']
   \<and> panel_nestFields '' t '' [''a'', ''t''] = Some (NestFields [''a''] ''t'')
   \<and> map file_data (files (store_nestFields [''a'', ''t'', ''a ''] '' t '' nest_state))
       = [[JObj [(''t'', JObj [(''x'', JNum (Fin 2)), (''a'', JNum (Fin 1))])]]]
   \<and> (\<exists>f'. active_file (store_nestFields [''a'', ''t'', ''a ''] '' t '' nest_state) = Some f'
         \<and> length (file_data f') = length (file_data nest_file))
   \<and> (\<exists>r'. fst (applyItem demo_builtins demo_parser (NestFields [''a''] ''t'')
                   (JObj [(''a'', JNum (Fin 1)), (''t'', JObj [(''x'', JNum (Fin 2))])]) [])
               = JObj r'
           \<and> nested_under r' ''t'' ''t''
               = nested_under [(''a'', JNum (Fin 1)), (''t'', JObj [(''x'', JNum (Fin 2))])] ''t'' ''t'')
   \<and> store_nestFields [''t''] ''t'' nest_state = nest_state
   \<and> applyBatch demo_builtins demo_parser (file_data nest_file) (NestFields [] ''t'')
       = (file_data nest_file, [])"
proof -
  have h1: "active_file nest_state = Some nest_file" by code_simp
  have h2: "trim '' t '' = ''t''" by code_simp
  have h3: "cleanedSource [''a'', ''t'', ''a ''] '' t '' = [''a'']" by code_simp
  have h4: "panel_nestFields '' t '' [''a'', ''t''] = Some (NestFields [''a''] ''t'')" by code_simp
  have h5: "map file_data (files (store_nestFields [''a'', ''t'', ''a ''] '' t '' nest_state))
       = [[JObj [(''t'', JObj [(''x'', JNum (Fin 2)), (''a'', JNum (Fin 1))])]]]"
    by code_simp
  have h6: "trim ''t'' = [] \<or> cleanedSource [''t''] ''t'' = []" by code_simp
  note t1 = nestFields_exclusion [of nest_state nest_file "'' t ''" "[''a'', ''t'', ''a '']"
      "[''a'', ''t'']" "NestFields [''a''] ''t''" demo_builtins demo_parser "[]"
      "''t''" "[]" "file_data nest_file"]
  note t2 = nestFields_exclusion [of nest_state nest_file "''t''" "[''t'']"
      "[]" "NestFields [] []" demo_builtins demo_parser "[]" "''t''" "[]" "[]"]
  have a: "\<exists>f'. active_file (store_nestFields [''a'', ''t'', ''a ''] '' t '' nest_state) = Some f'
         \<and> length (file_data f') = length (file_data nest_file)"
    using t1 h1 h2 h3 by auto
  have b: "\<exists>r'. fst (applyItem demo_builtins demo_parser (NestFields [''a''] ''t'')
                   (JObj [(''a'', JNum (Fin 1)), (''t'', JObj [(''x'', JNum (Fin 2))])]) [])
               = JObj r'
           \<and> nested_under r' ''t'' ''t''
               = nested_under [(''a'', JNum (Fin 1)), (''t'', JObj [(''x'', JNum (Fin 2))])] ''t'' ''t''"
    using t1 h4 h2 by auto
  have c: "store_nestFields [''t''] ''t'' nest_state = nest_state"
    using t2 h6 by blast
  have d: "applyBatch demo_builtins demo_parser (file_data nest_file) (NestFields [] ''t'')
       = (file_data nest_file, [])"
    using t1 by blast
  show ?thesis using h1 h2 h3 h4 h5 a b c d by blast
qed

end
